theory Spec2Isabelle
  imports Main "HOL-Library.Sublist"
begin

section \<open>Data model\<close>

text \<open>
  A stack operation is the dict built by \<^verbatim>\<open>build_template_params\<close>: the keys
  \<^verbatim>\<open>StackName\<close>, \<^verbatim>\<open>TemplateBody\<close> and \<^verbatim>\<open>Parameters\<close> are always there,
  \<^verbatim>\<open>Capabilities\<close> is optional (src/cf-deploy.py stores it only when the validation
  reports some), and \<^verbatim>\<open>StackId\<close> is the key the runners add and pop. An optional key is
  an \<open>option\<close> field: \<open>None\<close> is "key absent".
\<close>

record stack_param =
  StackName :: string
  TemplateBody :: string
  Parameters :: "(string \<times> string) list"
  Capabilities :: "string list option"
  StackId :: "string option"

text \<open>
  The \<^verbatim>\<open>method\<close> argument of \<^verbatim>\<open>deploy_in_order\<close>: the function \<^verbatim>\<open>create_stack\<close>, the
  function \<^verbatim>\<open>update_stack\<close>, or any other object. The code tests
  \<^verbatim>\<open>method == create_stack\<close> and \<^verbatim>\<open>method == update_stack\<close>, and for an object that is
  neither function it is the object's own \<^verbatim>\<open>__eq__\<close> that answers (a function's
  \<^verbatim>\<open>__eq__\<close> is identity): \<open>Fn_other name eq_create eq_update\<close> is such an object, with a
  name and its two answers. A plain function such as \<^verbatim>\<open>delete_stack\<close> answers no to both;
  \<^verbatim>\<open>unittest.mock.ANY\<close> answers yes to both. Of an object that answers yes, what is
  modelled is the one that cannot be called, as \<^verbatim>\<open>ANY\<close>: see \<open>call_method\<close>.
\<close>

datatype method_arg = Fn_create_stack | Fn_update_stack | Fn_other string bool bool

text \<open>
  Exceptions (all of them subclasses of Python's \<^verbatim>\<open>Exception\<close>): the \<^verbatim>\<open>ValueError\<close>
  of \<^verbatim>\<open>deploy_in_order\<close>, the \<^verbatim>\<open>KeyError\<close> of a dict lookup, the \<^verbatim>\<open>TypeError\<close> of
  calling an object that is not callable, and what the boto3 client and its waiter raise.
\<close>

datatype exn =
    ValueError method_arg
  | KeyError string
  | TypeError string
  | ClientError string
  | WaiterError string

text \<open>
  Of the response dict of \<^verbatim>\<open>client.create_stack\<close> / \<^verbatim>\<open>client.update_stack\<close> the code
  reads the key \<^verbatim>\<open>StackId\<close> only: a response is the value under that key, \<open>None\<close>
  when the key is absent.
\<close>

type_synonym response = "string option"

text \<open>
  The calls made on the boto3 client. \<open>Waiter_wait operation stack_name delay max_attempts\<close>
  is \<^verbatim>\<open>client.get_waiter(operation).wait(StackName=stack_name,
  WaiterConfig={"Delay": delay, "MaxAttempts": max_attempts})\<close>.
\<close>

datatype request =
    Create_stack stack_param
  | Update_stack stack_param
  | Delete_stack string
  | Waiter_wait string string nat nat

text \<open>
  What one thread does to the outside world, in order: the client calls with what they
  returned or raised, and the log records.
\<close>

datatype event =
    Called request "exn + response"
  | LogInfo string
  | LogError exn

text \<open>
  The provider gateway is a parameter: it answers a request given everything the calling
  thread has done so far, so that the same request may succeed once and fail later.
\<close>

type_synonym gateway = "event list \<Rightarrow> request \<Rightarrow> exn + response"

section \<open>The gateway wrappers\<close>

definition create_stack :: "gateway \<Rightarrow> event list \<Rightarrow> stack_param \<Rightarrow> (exn + response) \<times> event list" where
  "create_stack client t stack_param =
     (let response = client t (Create_stack stack_param)
      in (response, t @ [Called (Create_stack stack_param) response]))"

definition update_stack :: "gateway \<Rightarrow> event list \<Rightarrow> stack_param \<Rightarrow> (exn + response) \<times> event list" where
  "update_stack client t stack_param =
     (let response = client t (Update_stack stack_param)
      in (response, t @ [Called (Update_stack stack_param) response]))"

definition delete_stack :: "gateway \<Rightarrow> event list \<Rightarrow> string \<Rightarrow> (exn + unit) \<times> event list" where
  "delete_stack client t stack_name =
     (let r = client t (Delete_stack stack_name)
      in (case r of Inl e \<Rightarrow> Inl e | Inr _ \<Rightarrow> Inr (),
          t @ [Called (Delete_stack stack_name) r]))"

text \<open>
  \<^verbatim>\<open>wait_stack(operation, stack_name, delay=5, max_attempts=120)\<close>: an argument left
  out at the call site is \<open>None\<close> and takes the default.
\<close>

definition wait_stack ::
  "gateway \<Rightarrow> event list \<Rightarrow> string \<Rightarrow> string \<Rightarrow> nat option \<Rightarrow> nat option \<Rightarrow> (exn + bool) \<times> event list" where
  "wait_stack client t operation stack_name delay max_attempts =
     (let d = (case delay of None \<Rightarrow> 5 | Some d \<Rightarrow> d);
          k = (case max_attempts of None \<Rightarrow> 120 | Some k \<Rightarrow> k);
          r = client t (Waiter_wait operation stack_name d k)
      in (case r of Inl e \<Rightarrow> Inl e | Inr _ \<Rightarrow> Inr True,
          t @ [Called (Waiter_wait operation stack_name d k) r]))"

section \<open>The sequence runners\<close>

text \<open>
  A \<^verbatim>\<open>for\<close> loop whose body may raise: the body takes the trace and the element and
  gives back the exception it raised (if any), the element as it left it and the new trace.
  The first exception leaves the loop; the elements not reached are as they were.
\<close>

fun for_each ::
  "(event list \<Rightarrow> 'a \<Rightarrow> exn option \<times> 'a \<times> event list) \<Rightarrow> event list \<Rightarrow> 'a list
     \<Rightarrow> exn option \<times> 'a list \<times> event list" where
  "for_each body t [] = (None, [], t)"
| "for_each body t (x # xs) =
     (case body t x of
        (Some e, x', t') \<Rightarrow> (Some e, x' # xs, t')
      | (None, x', t') \<Rightarrow>
          (case for_each body t' xs of (r, xs', t'') \<Rightarrow> (r, x' # xs', t'')))"

text \<open>
  The handler \<^verbatim>\<open>except Exception as e: logger.error(e)\<close> around a loop, followed by
  \<^verbatim>\<open>return stack_params\<close>: nothing is raised to the caller.
\<close>

definition log_caught :: "exn option \<times> 'a list \<times> event list \<Rightarrow> exn option \<times> 'a list \<times> event list" where
  "log_caught r =
     (case r of
        (Some e, xs, t) \<Rightarrow> (None, xs, t @ [LogError e])
      | (None, xs, t) \<Rightarrow> (None, xs, t))"

text \<open>The body of the loop of \<^verbatim>\<open>deploy_in_order\<close> in src/cf-deploy.py (lines 90 to 95).\<close>

definition deploy_body ::
  "gateway \<Rightarrow> (gateway \<Rightarrow> event list \<Rightarrow> stack_param \<Rightarrow> (exn + response) \<times> event list)
     \<Rightarrow> string \<Rightarrow> string \<Rightarrow> event list \<Rightarrow> stack_param \<Rightarrow> exn option \<times> stack_param \<times> event list" where
  "deploy_body client method_fn wait_operation message t param =
     (case method_fn client t param of
        (Inl e, t1) \<Rightarrow> (Some e, param, t1)
      | (Inr None, t1) \<Rightarrow> (Some (KeyError ''StackId''), param, t1)
      | (Inr (Some sid), t1) \<Rightarrow>
          (let param1 = param\<lparr>StackId := Some sid\<rparr>;
               t2 = t1 @ [LogInfo (StackName param1 @ '' is being '' @ message)]
           in case wait_stack client t2 wait_operation (StackName param1) None None of
                (Inl e, t3) \<Rightarrow> (Some e, param1, t3)
              | (Inr _, t3) \<Rightarrow> (None, param1, t3 @ [LogInfo (StackName param1 @ '' is created'')])))"

text \<open>
  The two tests \<^verbatim>\<open>method == create_stack\<close> and \<^verbatim>\<open>method == update_stack\<close> of lines 79 and
  82, and the call \<^verbatim>\<open>method(param)\<close> of line 90. The two functions call the client; an
  object that is not callable raises \<^verbatim>\<open>TypeError\<close> and does nothing else.
\<close>

fun equals_create_stack :: "method_arg \<Rightarrow> bool" where
  "equals_create_stack Fn_create_stack = True"
| "equals_create_stack Fn_update_stack = False"
| "equals_create_stack (Fn_other name eq_create eq_update) = eq_create"

fun equals_update_stack :: "method_arg \<Rightarrow> bool" where
  "equals_update_stack Fn_create_stack = False"
| "equals_update_stack Fn_update_stack = True"
| "equals_update_stack (Fn_other name eq_create eq_update) = eq_update"

fun call_method ::
  "method_arg \<Rightarrow> gateway \<Rightarrow> event list \<Rightarrow> stack_param \<Rightarrow> (exn + response) \<times> event list" where
  "call_method Fn_create_stack = create_stack"
| "call_method Fn_update_stack = update_stack"
| "call_method (Fn_other name eq_create eq_update) =
     (\<lambda>client t stack_param. (Inl (TypeError name), t))"

text \<open>
  \<^verbatim>\<open>deploy_in_order\<close> of src/cf-deploy.py. The result is the exception raised to the
  caller (if any), the operations as the call left them, and the trace.
\<close>

definition deploy_in_order ::
  "gateway \<Rightarrow> event list \<Rightarrow> stack_param list \<Rightarrow> method_arg \<Rightarrow> exn option \<times> stack_param list \<times> event list" where
  "deploy_in_order client t stack_params m =
     (if equals_create_stack m then
        log_caught (for_each (deploy_body client (call_method m) ''stack_create_complete'' ''created'') t stack_params)
      else if equals_update_stack m then
        log_caught (for_each (deploy_body client (call_method m) ''stack_update_complete'' ''updated'') t stack_params)
      else (Some (ValueError m), stack_params, t))"

text \<open>
  The same two functions in src/scripts/cf-deploy.py: they differ in the last log record
  of the body (line 95), which uses \<^verbatim>\<open>message\<close>.
\<close>

definition scripts_deploy_body ::
  "gateway \<Rightarrow> (gateway \<Rightarrow> event list \<Rightarrow> stack_param \<Rightarrow> (exn + response) \<times> event list)
     \<Rightarrow> string \<Rightarrow> string \<Rightarrow> event list \<Rightarrow> stack_param \<Rightarrow> exn option \<times> stack_param \<times> event list" where
  "scripts_deploy_body client method_fn wait_operation message t param =
     (case method_fn client t param of
        (Inl e, t1) \<Rightarrow> (Some e, param, t1)
      | (Inr None, t1) \<Rightarrow> (Some (KeyError ''StackId''), param, t1)
      | (Inr (Some sid), t1) \<Rightarrow>
          (let param1 = param\<lparr>StackId := Some sid\<rparr>;
               t2 = t1 @ [LogInfo (StackName param1 @ '' is being '' @ message)]
           in case wait_stack client t2 wait_operation (StackName param1) None None of
                (Inl e, t3) \<Rightarrow> (Some e, param1, t3)
              | (Inr _, t3) \<Rightarrow> (None, param1, t3 @ [LogInfo (StackName param1 @ '' is '' @ message)])))"

definition scripts_deploy_in_order ::
  "gateway \<Rightarrow> event list \<Rightarrow> stack_param list \<Rightarrow> method_arg \<Rightarrow> exn option \<times> stack_param list \<times> event list" where
  "scripts_deploy_in_order client t stack_params m =
     (if equals_create_stack m then
        log_caught (for_each (scripts_deploy_body client (call_method m) ''stack_create_complete'' ''created'') t stack_params)
      else if equals_update_stack m then
        log_caught (for_each (scripts_deploy_body client (call_method m) ''stack_update_complete'' ''updated'') t stack_params)
      else (Some (ValueError m), stack_params, t))"

text \<open>
  \<^verbatim>\<open>delete_in_reverse_order\<close> (the same text in both files): the loop runs over
  \<^verbatim>\<open>reversed(stack_params)\<close> and changes the dicts in place, so the list handed back is in
  the caller's order.
\<close>

definition delete_body :: "gateway \<Rightarrow> event list \<Rightarrow> stack_param \<Rightarrow> exn option \<times> stack_param \<times> event list" where
  "delete_body client t param =
     (case delete_stack client t (StackName param) of
        (Inl e, t1) \<Rightarrow> (Some e, param, t1)
      | (Inr _, t1) \<Rightarrow>
          (let t2 = t1 @ [LogInfo (StackName param @ '' is being deleted'')]
           in case wait_stack client t2 ''stack_delete_complete'' (StackName param) None None of
                (Inl e, t3) \<Rightarrow> (Some e, param, t3)
              | (Inr _, t3) \<Rightarrow>
                  (None, param\<lparr>StackId := None\<rparr>, t3 @ [LogInfo (StackName param @ '' is deleted'')])))"

definition delete_in_reverse_order ::
  "gateway \<Rightarrow> event list \<Rightarrow> stack_param list \<Rightarrow> exn option \<times> stack_param list \<times> event list" where
  "delete_in_reverse_order client t stack_params =
     (case log_caught (for_each (delete_body client) t (rev stack_params)) of
        (r, xs, t') \<Rightarrow> (r, rev xs, t'))"

section \<open>The orchestrator\<close>

text \<open>
  \<^verbatim>\<open>deploy_parallel\<close> starts one thread per sequence, each running
  \<^verbatim>\<open>deploy_in_order(stacks, method)\<close>. Thread \<open>i\<close> talks to the gateway as
  \<open>clients i\<close> answers it and owns its sequence alone, so what the threads leave behind is
  one runner result per sequence. An exception that leaves a thread's target ends that
  thread only: it is not raised in the thread that started it.
\<close>

definition deploy_workers ::
  "(nat \<Rightarrow> gateway) \<Rightarrow> stack_param list list \<Rightarrow> method_arg \<Rightarrow> (exn option \<times> stack_param list \<times> event list) list" where
  "deploy_workers clients stack_sequences m =
     map (\<lambda>(i, stacks). deploy_in_order (clients i) [] stacks m) (enumerate 0 stack_sequences)"

definition scripts_deploy_workers ::
  "(nat \<Rightarrow> gateway) \<Rightarrow> stack_param list list \<Rightarrow> method_arg \<Rightarrow> (exn option \<times> stack_param list \<times> event list) list" where
  "scripts_deploy_workers clients stack_sequences m =
     map (\<lambda>(i, stacks). scripts_deploy_in_order (clients i) [] stacks m) (enumerate 0 stack_sequences)"

definition delete_workers ::
  "(nat \<Rightarrow> gateway) \<Rightarrow> stack_param list list \<Rightarrow> (exn option \<times> stack_param list \<times> event list) list" where
  "delete_workers clients stack_sequences =
     map (\<lambda>(i, stacks). delete_in_reverse_order (clients i) [] stacks) (enumerate 0 stack_sequences)"

text \<open>
  Truth values of the two loop conditions. \<^verbatim>\<open>filter(f, jobs)\<close> is a filter object: the
  class defines neither \<^verbatim>\<open>__bool__\<close> nor \<^verbatim>\<open>__len__\<close>, so the object is true whatever
  it would yield, and \<open>f\<close> is never called. \<^verbatim>\<open>list(filter(f, jobs))\<close> is a list, true
  when it has an element.
\<close>

definition truth_of_filter_object :: "('a \<Rightarrow> bool) \<Rightarrow> 'a list \<Rightarrow> bool" where
  "truth_of_filter_object f xs = True"

definition truth_of_list :: "'a list \<Rightarrow> bool" where
  "truth_of_list xs = (xs \<noteq> [])"

text \<open>
  The join loop \<^verbatim>\<open>while <condition>: sleep(1)\<close>. Time is counted in evaluations of the
  condition: \<open>n\<close> sleeps have passed, and thread \<open>job\<close> is alive at that moment when
  \<open>n < finish job\<close>, its target returning (or raising) before evaluation \<open>finish job\<close>.
  The loop gives the number of sleeps after which it was left, \<open>None\<close> when it never is.
  \<open>join_loop\<close> is lines 110 and 138 of src/cf-deploy.py, \<open>scripts_join_loop\<close> the same
  lines of src/scripts/cf-deploy.py.
\<close>

partial_function (option) join_loop :: "(nat \<Rightarrow> nat) \<Rightarrow> nat list \<Rightarrow> nat \<Rightarrow> nat option" where
  "join_loop finish jobs n =
     (if truth_of_filter_object (\<lambda>job. n < finish job) jobs
      then join_loop finish jobs (Suc n) else Some n)"

partial_function (option) scripts_join_loop :: "(nat \<Rightarrow> nat) \<Rightarrow> nat list \<Rightarrow> nat \<Rightarrow> nat option" where
  "scripts_join_loop finish jobs n =
     (if truth_of_list (filter (\<lambda>job. n < finish job) jobs)
      then scripts_join_loop finish jobs (Suc n) else Some n)"

text \<open>
  The orchestrators return \<^verbatim>\<open>stack_sequences\<close>, whose dicts the threads have changed in
  place, once the join loop is left: the result is \<open>None\<close> when they never return, else the
  sequences and the number of sleeps the join took.
\<close>

definition deploy_parallel ::
  "(nat \<Rightarrow> gateway) \<Rightarrow> (nat \<Rightarrow> nat) \<Rightarrow> stack_param list list \<Rightarrow> method_arg \<Rightarrow> (stack_param list list \<times> nat) option" where
  "deploy_parallel clients finish stack_sequences m =
     (let jobs = [0..<length stack_sequences]
      in case join_loop finish jobs 0 of
           None \<Rightarrow> None
         | Some n \<Rightarrow> Some (map (\<lambda>w. fst (snd w)) (deploy_workers clients stack_sequences m), n))"

definition delete_parallel ::
  "(nat \<Rightarrow> gateway) \<Rightarrow> (nat \<Rightarrow> nat) \<Rightarrow> stack_param list list \<Rightarrow> (stack_param list list \<times> nat) option" where
  "delete_parallel clients finish stack_sequences =
     (let jobs = [0..<length stack_sequences]
      in case join_loop finish jobs 0 of
           None \<Rightarrow> None
         | Some n \<Rightarrow> Some (map (\<lambda>w. fst (snd w)) (delete_workers clients stack_sequences), n))"

definition scripts_deploy_parallel ::
  "(nat \<Rightarrow> gateway) \<Rightarrow> (nat \<Rightarrow> nat) \<Rightarrow> stack_param list list \<Rightarrow> method_arg \<Rightarrow> (stack_param list list \<times> nat) option" where
  "scripts_deploy_parallel clients finish stack_sequences m =
     (let jobs = [0..<length stack_sequences]
      in case scripts_join_loop finish jobs 0 of
           None \<Rightarrow> None
         | Some n \<Rightarrow> Some (map (\<lambda>w. fst (snd w)) (scripts_deploy_workers clients stack_sequences m), n))"

definition scripts_delete_parallel ::
  "(nat \<Rightarrow> gateway) \<Rightarrow> (nat \<Rightarrow> nat) \<Rightarrow> stack_param list list \<Rightarrow> (stack_param list list \<times> nat) option" where
  "scripts_delete_parallel clients finish stack_sequences =
     (let jobs = [0..<length stack_sequences]
      in case scripts_join_loop finish jobs 0 of
           None \<Rightarrow> None
         | Some n \<Rightarrow> Some (map (\<lambda>w. fst (snd w)) (delete_workers clients stack_sequences), n))"

section \<open>Reading a result and a trace\<close>

text \<open>The three parts of a runner's result.\<close>

definition raised :: "exn option \<times> stack_param list \<times> event list \<Rightarrow> exn option" where
  "raised res = fst res"

definition ops_after :: "exn option \<times> stack_param list \<times> event list \<Rightarrow> stack_param list" where
  "ops_after res = fst (snd res)"

definition trace_after :: "exn option \<times> stack_param list \<times> event list \<Rightarrow> event list" where
  "trace_after res = snd (snd res)"


text \<open>The client calls of a trace, in order, each with what it returned or raised.\<close>

fun calls :: "event list \<Rightarrow> (request \<times> (exn + response)) list" where
  "calls [] = []"
| "calls (Called req r # es) = (req, r) # calls es"
| "calls (LogInfo s # es) = calls es"
| "calls (LogError e # es) = calls es"

definition requests :: "event list \<Rightarrow> request list" where
  "requests t = map fst (calls t)"

fun returned :: "request \<times> (exn + response) \<Rightarrow> bool" where
  "returned (req, Inl e) = False"
| "returned (req, Inr r) = True"

fun is_LogError :: "event \<Rightarrow> bool" where
  "is_LogError (LogError e) = True"
| "is_LogError (Called req r) = False"
| "is_LogError (LogInfo s) = False"

text \<open>The loop body and the client request that \<^verbatim>\<open>deploy_in_order\<close> uses for an accepted method.\<close>

definition forward_body ::
  "gateway \<Rightarrow> method_arg \<Rightarrow> event list \<Rightarrow> stack_param \<Rightarrow> exn option \<times> stack_param \<times> event list" where
  "forward_body client m =
     (if m = Fn_create_stack then deploy_body client create_stack ''stack_create_complete'' ''created''
      else deploy_body client update_stack ''stack_update_complete'' ''updated'')"

definition method_request :: "method_arg \<Rightarrow> stack_param \<Rightarrow> request" where
  "method_request m p = (if m = Fn_create_stack then Create_stack p else Update_stack p)"

definition wait_operation_of :: "method_arg \<Rightarrow> string" where
  "wait_operation_of m = (if m = Fn_create_stack then ''stack_create_complete'' else ''stack_update_complete'')"

definition message_of :: "method_arg \<Rightarrow> string" where
  "message_of m = (if m = Fn_create_stack then ''created'' else ''updated'')"

text \<open>
  The requests of a forward run in which nothing fails: for each operation in order, the
  call of the method and then its wait. Those of a teardown: for each operation in reverse
  order,
  the delete call and then its wait.
\<close>

definition forward_plan :: "method_arg \<Rightarrow> stack_param list \<Rightarrow> request list" where
  "forward_plan m ps =
     concat (map (\<lambda>p. [method_request m p,
                        Waiter_wait (wait_operation_of m) (StackName p) 5 120]) ps)"

definition teardown_plan :: "stack_param list \<Rightarrow> request list" where
  "teardown_plan ps =
     concat (map (\<lambda>p. [Delete_stack (StackName p),
                        Waiter_wait ''stack_delete_complete'' (StackName p) 5 120]) (rev ps))"

text \<open>
  The remote identifier that a trace leaves for the stack named \<open>n\<close>: the handle of the
  last create or update call on \<open>n\<close> that returned one, unless a delete of \<open>n\<close> was
  completed after it. A delete is completed when the wait for \<^verbatim>\<open>stack_delete_complete\<close>
  on \<open>n\<close> returns (the runners issue that wait only after the delete call returned).
\<close>

definition track :: "string \<Rightarrow> string option \<Rightarrow> event \<Rightarrow> string option" where
  "track n cur ev =
     (case ev of
        Called (Create_stack p) (Inr (Some sid)) \<Rightarrow> if StackName p = n then Some sid else cur
      | Called (Update_stack p) (Inr (Some sid)) \<Rightarrow> if StackName p = n then Some sid else cur
      | Called (Waiter_wait operation n' d k) (Inr r) \<Rightarrow>
          if operation = ''stack_delete_complete'' \<and> n' = n then None else cur
      | _ \<Rightarrow> cur)"

definition remote_id :: "string \<Rightarrow> event list \<Rightarrow> string option" where
  "remote_id n t = foldl (track n) None t"

definition tracked :: "event list \<Rightarrow> stack_param list \<Rightarrow> bool" where
  "tracked t ps = list_all (\<lambda>p. StackId p = remote_id (StackName p) t) ps"

section \<open>Sample operations and gateways\<close>

definition sample_op :: "string \<Rightarrow> stack_param" where
  "sample_op n = \<lparr>StackName = n, TemplateBody = ''{}'', Parameters = [(''Env'', ''dev'')],
                  Capabilities = None, StackId = None\<rparr>"

definition two_stacks :: "stack_param list" where
  "two_stacks = [sample_op ''git'', sample_op ''build'']"

definition three_stacks :: "stack_param list" where
  "three_stacks = [sample_op ''s1'', sample_op ''s2'', sample_op ''s3'']"

text \<open>A gateway that accepts everything and hands out \<open>arn:\<close> followed by the stack's name.\<close>

definition accepting :: gateway where
  "accepting t req =
     (case req of
        Create_stack p \<Rightarrow> Inr (Some (''arn:'' @ StackName p))
      | Update_stack p \<Rightarrow> Inr (Some (''arn:'' @ StackName p))
      | Delete_stack n \<Rightarrow> Inr None
      | Waiter_wait operation n d k \<Rightarrow> Inr None)"

text \<open>A gateway that rejects every create, update and delete call on the stack named \<open>bad\<close>.\<close>

definition rejecting :: "string \<Rightarrow> gateway" where
  "rejecting bad t req =
     (case req of
        Create_stack p \<Rightarrow> if StackName p = bad then Inl (ClientError ''rejected'') else Inr (Some (''arn:'' @ StackName p))
      | Update_stack p \<Rightarrow> if StackName p = bad then Inl (ClientError ''rejected'') else Inr (Some (''arn:'' @ StackName p))
      | Delete_stack n \<Rightarrow> if n = bad then Inl (ClientError ''rejected'') else Inr None
      | Waiter_wait operation n d k \<Rightarrow> Inr None)"

text \<open>A gateway on which every wait for the stack named \<open>slow\<close> runs out of attempts.\<close>

definition timing_out :: "string \<Rightarrow> gateway" where
  "timing_out slow t req =
     (case req of
        Create_stack p \<Rightarrow> Inr (Some (''arn:'' @ StackName p))
      | Update_stack p \<Rightarrow> Inr (Some (''arn:'' @ StackName p))
      | Delete_stack n \<Rightarrow> Inr None
      | Waiter_wait operation n d k \<Rightarrow> if n = slow then Inl (WaiterError ''Max attempts exceeded'') else Inr None)"

section \<open>The loop, the bodies and the shape of a run\<close>

subsection \<open>The loop\<close>

lemma for_each_append_ok:
  "for_each body t xs = (None, xs', t1) \<Longrightarrow>
   for_each body t (xs @ ys) = (case for_each body t1 ys of (r, ys', t2) \<Rightarrow> (r, xs' @ ys', t2))"
proof (induction xs arbitrary: t xs')
  case Nil
  then show ?case by (simp split: prod.splits)
next
  case (Cons x xs)
  obtain r1 x1 ta where b: "body t x = (r1, x1, ta)" by (cases "body t x") auto
  show ?case
  proof (cases r1)
    case None
    obtain r2 xs2 t2 where f: "for_each body ta xs = (r2, xs2, t2)"
      by (cases "for_each body ta xs") auto
    from Cons.prems b None f have eq: "r2 = None" "xs' = x1 # xs2" "t2 = t1" by simp_all
    from Cons.IH [of ta xs2] f eq
    have "for_each body ta (xs @ ys) = (case for_each body t1 ys of (r, ys', t2) \<Rightarrow> (r, xs2 @ ys', t2))"
      by simp
    with b None eq show ?thesis by (simp split: prod.splits)
  next
    case (Some e)
    with Cons.prems b show ?thesis by simp
  qed
qed

lemma for_each_stops:
  assumes "for_each body t pre = (None, pre', t1)" and "body t1 p = (Some e, p', t2)"
  shows "for_each body t (pre @ p # post) = (Some e, pre' @ p' # post, t2)"
  using for_each_append_ok [OF assms(1), of "p # post"] assms(2) by simp

lemma calls_append: "calls (xs @ ys) = calls xs @ calls ys"
  by (induction xs rule: calls.induct) simp_all

lemma requests_append: "requests (xs @ ys) = requests xs @ requests ys"
  by (simp add: requests_def calls_append)



subsection \<open>The loop bodies, case by case\<close>

lemma delete_body_unfold:
  "delete_body client t p =
     (case client t (Delete_stack (StackName p)) of
        Inl e \<Rightarrow> (Some e, p, t @ [Called (Delete_stack (StackName p)) (Inl e)])
      | Inr y \<Rightarrow>
         (case client (t @ [Called (Delete_stack (StackName p)) (Inr y),
                            LogInfo (StackName p @ '' is being deleted'')])
                 (Waiter_wait ''stack_delete_complete'' (StackName p) 5 120) of
            Inl e \<Rightarrow> (Some e, p,
               t @ [Called (Delete_stack (StackName p)) (Inr y),
                    LogInfo (StackName p @ '' is being deleted''),
                    Called (Waiter_wait ''stack_delete_complete'' (StackName p) 5 120) (Inl e)])
          | Inr x \<Rightarrow> (None, p\<lparr>StackId := None\<rparr>,
               t @ [Called (Delete_stack (StackName p)) (Inr y),
                    LogInfo (StackName p @ '' is being deleted''),
                    Called (Waiter_wait ''stack_delete_complete'' (StackName p) 5 120) (Inr x),
                    LogInfo (StackName p @ '' is deleted'')])))"
  by (simp add: delete_body_def delete_stack_def wait_stack_def Let_def split: sum.splits)

lemma delete_body_cases:
  assumes "delete_body client t p = (r, p', t')"
  obtains
    (call_raised) e where
      "client t (Delete_stack (StackName p)) = Inl e" "r = Some e" "p' = p"
      "t' = t @ [Called (Delete_stack (StackName p)) (Inl e)]"
  | (wait_raised) y s1 e where
      "client t (Delete_stack (StackName p)) = Inr y" "r = Some e" "p' = p"
      "t' = t @ [Called (Delete_stack (StackName p)) (Inr y), LogInfo s1,
                Called (Waiter_wait ''stack_delete_complete'' (StackName p) 5 120) (Inl e)]"
  | (completed) y s1 x s2 where
      "client t (Delete_stack (StackName p)) = Inr y" "r = None"
      "p' = p\<lparr>StackId := None\<rparr>"
      "t' = t @ [Called (Delete_stack (StackName p)) (Inr y), LogInfo s1,
                Called (Waiter_wait ''stack_delete_complete'' (StackName p) 5 120) (Inr x), LogInfo s2]"
proof (cases "client t (Delete_stack (StackName p))")
  case (Inl e)
  with assms show ?thesis by (intro call_raised [of e]) (auto simp: delete_body_unfold)
next
  case (Inr y)
  show ?thesis
  proof (cases "client (t @ [Called (Delete_stack (StackName p)) (Inr y),
                            LogInfo (StackName p @ '' is being deleted'')])
                 (Waiter_wait ''stack_delete_complete'' (StackName p) 5 120)")
    case (Inl e)
    with assms Inr show ?thesis
      by (intro wait_raised [of y e "StackName p @ '' is being deleted''"])
         (auto simp: delete_body_unfold)
  next
    case (Inr x)
    with assms \<open>client t (Delete_stack (StackName p)) = Inr y\<close> show ?thesis
      by (intro completed [of y "StackName p @ '' is being deleted''" x "StackName p @ '' is deleted''"])
         (auto simp: delete_body_unfold)
  qed
qed


lemma forward_body_unfold:
  "forward_body client m t p =
     (case client t (method_request m p) of
        Inl e \<Rightarrow> (Some e, p, t @ [Called (method_request m p) (Inl e)])
      | Inr None \<Rightarrow> (Some (KeyError ''StackId''), p, t @ [Called (method_request m p) (Inr None)])
      | Inr (Some sid) \<Rightarrow>
         (case client (t @ [Called (method_request m p) (Inr (Some sid)),
                            LogInfo (StackName p @ '' is being '' @ message_of m)])
                 (Waiter_wait (wait_operation_of m) (StackName p) 5 120) of
            Inl e \<Rightarrow> (Some e, p\<lparr>StackId := Some sid\<rparr>,
               t @ [Called (method_request m p) (Inr (Some sid)),
                    LogInfo (StackName p @ '' is being '' @ message_of m),
                    Called (Waiter_wait (wait_operation_of m) (StackName p) 5 120) (Inl e)])
          | Inr x \<Rightarrow> (None, p\<lparr>StackId := Some sid\<rparr>,
               t @ [Called (method_request m p) (Inr (Some sid)),
                    LogInfo (StackName p @ '' is being '' @ message_of m),
                    Called (Waiter_wait (wait_operation_of m) (StackName p) 5 120) (Inr x),
                    LogInfo (StackName p @ '' is created'')])))"
  by (simp add: forward_body_def deploy_body_def create_stack_def update_stack_def
        wait_stack_def method_request_def wait_operation_of_def message_of_def Let_def
      split: sum.splits option.splits)

lemma forward_body_cases:
  assumes "forward_body client m t p = (r, p', t')"
  obtains
    (call_raised) e where
      "client t (method_request m p) = Inl e" "r = Some e" "p' = p"
      "t' = t @ [Called (method_request m p) (Inl e)]"
  | (no_handle)
      "client t (method_request m p) = Inr None" "r = Some (KeyError ''StackId'')" "p' = p"
      "t' = t @ [Called (method_request m p) (Inr None)]"
  | (wait_raised) sid s1 e where
      "client t (method_request m p) = Inr (Some sid)" "r = Some e"
      "p' = p\<lparr>StackId := Some sid\<rparr>"
      "t' = t @ [Called (method_request m p) (Inr (Some sid)), LogInfo s1,
                Called (Waiter_wait (wait_operation_of m) (StackName p) 5 120) (Inl e)]"
  | (completed) sid s1 x s2 where
      "client t (method_request m p) = Inr (Some sid)" "r = None"
      "p' = p\<lparr>StackId := Some sid\<rparr>"
      "t' = t @ [Called (method_request m p) (Inr (Some sid)), LogInfo s1,
                Called (Waiter_wait (wait_operation_of m) (StackName p) 5 120) (Inr x), LogInfo s2]"
proof (cases "client t (method_request m p)")
  case (Inl e)
  with assms show ?thesis by (intro call_raised [of e]) (auto simp: forward_body_unfold)
next
  case (Inr y)
  show ?thesis
  proof (cases y)
    case None
    with assms Inr show ?thesis by (intro no_handle) (auto simp: forward_body_unfold)
  next
    case (Some sid)
    note call = Inr [unfolded Some]
    show ?thesis
    proof (cases "client (t @ [Called (method_request m p) (Inr (Some sid)),
                            LogInfo (StackName p @ '' is being '' @ message_of m)])
                 (Waiter_wait (wait_operation_of m) (StackName p) 5 120)")
      case (Inl e)
      with assms call show ?thesis
        by (intro wait_raised [of sid e "StackName p @ '' is being '' @ message_of m"])
           (auto simp: forward_body_unfold)
    next
      case (Inr x)
      with assms call show ?thesis
        by (intro completed [of sid "StackName p @ '' is being '' @ message_of m" x
                               "StackName p @ '' is created''"])
           (auto simp: forward_body_unfold)
    qed
  qed
qed


subsection \<open>Runs follow their plan\<close>

lemma in_calls: "(req, x) \<in> set (calls t) \<longleftrightarrow> Called req x \<in> set t"
  by (induction t rule: calls.induct) auto

lemma for_each_follows_plan:
  assumes body:
    "\<And>t x r x' t'. body t x = (r, x', t') \<Longrightarrow>
       \<exists>new. t' = t @ new \<and> \<not> list_ex is_LogError new \<and> prefix (requests new) (plan1 x)
          \<and> list_all returned (butlast (calls new))
          \<and> (r = None \<longrightarrow> requests new = plan1 x \<and> list_all returned (calls new))
          \<and> (\<forall>req e. (req, Inl e) \<in> set (calls new) \<longrightarrow> r = Some e)"
    and run: "for_each body t xs = (r, xs', t')"
  shows "\<exists>new. t' = t @ new \<and> \<not> list_ex is_LogError new
          \<and> prefix (requests new) (concat (map plan1 xs))
          \<and> list_all returned (butlast (calls new))
          \<and> (r = None \<longrightarrow> requests new = concat (map plan1 xs) \<and> list_all returned (calls new))
          \<and> (\<forall>req e. (req, Inl e) \<in> set (calls new) \<longrightarrow> r = Some e)"
  using run
proof (induction xs arbitrary: t r xs' t')
  case Nil
  then show ?case by (simp add: requests_def)
next
  case (Cons x xs)
  obtain r1 x1 t1 where b: "body t x = (r1, x1, t1)" by (cases "body t x") auto
  from body [OF b] obtain new1 where n1:
    "t1 = t @ new1" "\<not> list_ex is_LogError new1" "prefix (requests new1) (plan1 x)"
    "list_all returned (butlast (calls new1))"
    "r1 = None \<longrightarrow> requests new1 = plan1 x \<and> list_all returned (calls new1)"
    "\<forall>req e. (req, Inl e) \<in> set (calls new1) \<longrightarrow> r1 = Some e"
    by blast
  show ?case
  proof (cases r1)
    case (Some e)
    with Cons.prems b have "r = r1" "t' = t1" by simp_all
    with n1 Some show ?thesis by (intro exI [of _ new1]) (simp add: prefix_prefix)
  next
    case None
    obtain r2 xs2 t2 where f: "for_each body t1 xs = (r2, xs2, t2)"
      by (cases "for_each body t1 xs") auto
    from Cons.prems b None f have eq: "r = r2" "t' = t2" by simp_all
    from Cons.IH [OF f] obtain new2 where n2:
      "t2 = t1 @ new2" "\<not> list_ex is_LogError new2"
      "prefix (requests new2) (concat (map plan1 xs))"
      "list_all returned (butlast (calls new2))"
      "r2 = None \<longrightarrow> requests new2 = concat (map plan1 xs) \<and> list_all returned (calls new2)"
      "\<forall>req e. (req, Inl e) \<in> set (calls new2) \<longrightarrow> r2 = Some e"
      by blast
    from n1 None have full: "requests new1 = plan1 x" "list_all returned (calls new1)" by simp_all
    have bl: "list_all returned (butlast (calls new1 @ calls new2))"
      using full(2) n1(4) n2(4) by (simp add: butlast_append)
    have none1: "(req, Inl e) \<notin> set (calls new1)" for req e
      using n1(6) None by auto
    have raised: "\<forall>req e. (req, Inl e) \<in> set (calls new1 @ calls new2) \<longrightarrow> r2 = Some e"
      using none1 n2(6) by auto
    show ?thesis
      using n1(1,2) n2(1-5) full bl eq raised
      by (intro exI [of _ "new1 @ new2"]) (simp add: requests_append calls_append)
  qed
qed

lemma forward_body_plan:
  assumes "forward_body client m t p = (r, p', t')"
  shows "\<exists>new. t' = t @ new \<and> \<not> list_ex is_LogError new
          \<and> prefix (requests new)
               [method_request m p, Waiter_wait (wait_operation_of m) (StackName p) 5 120]
          \<and> list_all returned (butlast (calls new))
          \<and> (r = None \<longrightarrow> requests new =
                 [method_request m p, Waiter_wait (wait_operation_of m) (StackName p) 5 120]
               \<and> list_all returned (calls new))
          \<and> (\<forall>req e. (req, Inl e) \<in> set (calls new) \<longrightarrow> r = Some e)"
  using assms
proof (cases rule: forward_body_cases)
  case (call_raised e)
  then show ?thesis
    by (intro exI [of _ "[Called (method_request m p) (Inl e)]"]) (simp add: requests_def)
next
  case no_handle
  then show ?thesis
    by (intro exI [of _ "[Called (method_request m p) (Inr None)]"]) (simp add: requests_def)
next
  case (wait_raised sid s1 e)
  then show ?thesis
    by (intro exI [of _ "[Called (method_request m p) (Inr (Some sid)), LogInfo s1,
          Called (Waiter_wait (wait_operation_of m) (StackName p) 5 120) (Inl e)]"])
       (simp add: requests_def)
next
  case (completed sid s1 x s2)
  then show ?thesis
    by (intro exI [of _ "[Called (method_request m p) (Inr (Some sid)), LogInfo s1,
          Called (Waiter_wait (wait_operation_of m) (StackName p) 5 120) (Inr x), LogInfo s2]"])
       (simp add: requests_def)
qed

lemma delete_body_plan:
  assumes "delete_body client t p = (r, p', t')"
  shows "\<exists>new. t' = t @ new \<and> \<not> list_ex is_LogError new
          \<and> prefix (requests new)
               [Delete_stack (StackName p), Waiter_wait ''stack_delete_complete'' (StackName p) 5 120]
          \<and> list_all returned (butlast (calls new))
          \<and> (r = None \<longrightarrow> requests new =
                 [Delete_stack (StackName p), Waiter_wait ''stack_delete_complete'' (StackName p) 5 120]
               \<and> list_all returned (calls new))
          \<and> (\<forall>req e. (req, Inl e) \<in> set (calls new) \<longrightarrow> r = Some e)"
  using assms
proof (cases rule: delete_body_cases)
  case (call_raised e)
  then show ?thesis
    by (intro exI [of _ "[Called (Delete_stack (StackName p)) (Inl e)]"]) (simp add: requests_def)
next
  case (wait_raised y s1 e)
  then show ?thesis
    by (intro exI [of _ "[Called (Delete_stack (StackName p)) (Inr y), LogInfo s1,
          Called (Waiter_wait ''stack_delete_complete'' (StackName p) 5 120) (Inl e)]"])
       (simp add: requests_def)
next
  case (completed y s1 x s2)
  then show ?thesis
    by (intro exI [of _ "[Called (Delete_stack (StackName p)) (Inr y), LogInfo s1,
          Called (Waiter_wait ''stack_delete_complete'' (StackName p) 5 120) (Inr x), LogInfo s2]"])
       (simp add: requests_def)
qed

lemma deploy_in_order_accepted:
  "m = Fn_create_stack \<or> m = Fn_update_stack \<Longrightarrow>
   deploy_in_order client t ps m = log_caught (for_each (forward_body client m) t ps)"
  by (auto simp: deploy_in_order_def forward_body_def)

text \<open>What every forward run with an accepted method looks like.\<close>

lemma forward_run:
  assumes acc: "m = Fn_create_stack \<or> m = Fn_update_stack"
    and run: "deploy_in_order client t ps m = (r, ps', t')"
  shows "r = None \<and> (\<exists>new. t' = t @ new
          \<and> prefix (requests new) (forward_plan m ps)
          \<and> list_all returned (butlast (calls new))
          \<and> (\<not> list_ex is_LogError new \<longrightarrow> requests new = forward_plan m ps \<and> list_all returned (calls new))
          \<and> (\<forall>req e. (req, Inl e) \<in> set (calls new) \<longrightarrow> new \<noteq> [] \<and> last new = LogError e)
          \<and> length (filter is_LogError new) \<le> 1)"
proof -
  obtain r0 ps0 t0 where f: "for_each (forward_body client m) t ps = (r0, ps0, t0)"
    by (cases "for_each (forward_body client m) t ps") auto
  have "\<exists>new. t0 = t @ new \<and> \<not> list_ex is_LogError new
          \<and> prefix (requests new) (forward_plan m ps)
          \<and> list_all returned (butlast (calls new))
          \<and> (r0 = None \<longrightarrow> requests new = forward_plan m ps \<and> list_all returned (calls new))
          \<and> (\<forall>req e. (req, Inl e) \<in> set (calls new) \<longrightarrow> r0 = Some e)"
    unfolding forward_plan_def
    by (rule for_each_follows_plan [where body = "forward_body client m", OF _ f])
       (rule forward_body_plan)
  then obtain new where n:
    "t0 = t @ new" "\<not> list_ex is_LogError new" "prefix (requests new) (forward_plan m ps)"
    "list_all returned (butlast (calls new))"
    "r0 = None \<longrightarrow> requests new = forward_plan m ps \<and> list_all returned (calls new)"
    "\<forall>req e. (req, Inl e) \<in> set (calls new) \<longrightarrow> r0 = Some e"
    by blast
  have nf: "filter is_LogError new = []"
    using n(2) by (simp add: list_ex_iff filter_empty_conv)
  show ?thesis
  proof (cases r0)
    case None
    with run acc f have "r = None" "t' = t0"
      by (simp_all add: deploy_in_order_accepted log_caught_def)
    with n None nf show ?thesis by (intro conjI exI [of _ new]) auto
  next
    case (Some e)
    with run acc f have "r = None" "t' = t0 @ [LogError e]"
      by (simp_all add: deploy_in_order_accepted log_caught_def)
    with n Some nf show ?thesis
      by (intro conjI exI [of _ "new @ [LogError e]"])
         (auto simp: requests_append calls_append requests_def)
  qed
qed


lemma teardown_run:
  assumes run: "delete_in_reverse_order client t ps = (r, ps', t')"
  shows "r = None \<and> (\<exists>new. t' = t @ new
          \<and> prefix (requests new) (teardown_plan ps)
          \<and> list_all returned (butlast (calls new))
          \<and> (\<not> list_ex is_LogError new \<longrightarrow> requests new = teardown_plan ps \<and> list_all returned (calls new))
          \<and> (\<forall>req e. (req, Inl e) \<in> set (calls new) \<longrightarrow> new \<noteq> [] \<and> last new = LogError e)
          \<and> length (filter is_LogError new) \<le> 1)"
proof -
  obtain r0 ps0 t0 where f: "for_each (delete_body client) t (rev ps) = (r0, ps0, t0)"
    by (cases "for_each (delete_body client) t (rev ps)") auto
  have "\<exists>new. t0 = t @ new \<and> \<not> list_ex is_LogError new
          \<and> prefix (requests new) (teardown_plan ps)
          \<and> list_all returned (butlast (calls new))
          \<and> (r0 = None \<longrightarrow> requests new = teardown_plan ps \<and> list_all returned (calls new))
          \<and> (\<forall>req e. (req, Inl e) \<in> set (calls new) \<longrightarrow> r0 = Some e)"
    unfolding teardown_plan_def
    by (rule for_each_follows_plan [where body = "delete_body client", OF _ f])
       (rule delete_body_plan)
  then obtain new where n:
    "t0 = t @ new" "\<not> list_ex is_LogError new" "prefix (requests new) (teardown_plan ps)"
    "list_all returned (butlast (calls new))"
    "r0 = None \<longrightarrow> requests new = teardown_plan ps \<and> list_all returned (calls new)"
    "\<forall>req e. (req, Inl e) \<in> set (calls new) \<longrightarrow> r0 = Some e"
    by blast
  have nf: "filter is_LogError new = []"
    using n(2) by (simp add: list_ex_iff filter_empty_conv)
  show ?thesis
  proof (cases r0)
    case None
    with run f have "r = None" "t' = t0"
      by (simp_all add: delete_in_reverse_order_def log_caught_def)
    with n None nf show ?thesis by (intro conjI exI [of _ new]) auto
  next
    case (Some e)
    with run f have "r = None" "t' = t0 @ [LogError e]"
      by (simp_all add: delete_in_reverse_order_def log_caught_def)
    with n Some nf show ?thesis
      by (intro conjI exI [of _ "new @ [LogError e]"])
         (auto simp: requests_append calls_append requests_def)
  qed
qed

lemma length_forward_plan: "length (forward_plan m ps) = 2 * length ps"
  by (induction ps) (simp_all add: forward_plan_def)

lemma forward_plan_nth:
  "i < length ps \<Longrightarrow>
   forward_plan m ps ! (2 * i) = method_request m (ps ! i)
   \<and> forward_plan m ps ! (2 * i + 1) = Waiter_wait (wait_operation_of m) (StackName (ps ! i)) 5 120"
proof (induction ps arbitrary: i)
  case Nil
  then show ?case by simp
next
  case (Cons p ps)
  show ?case
  proof (cases i)
    case 0
    then show ?thesis by (simp add: forward_plan_def)
  next
    case (Suc j)
    with Cons.prems have "j < length ps" by simp
    from Cons.IH [OF this] Suc show ?thesis by (simp add: forward_plan_def)
  qed
qed

lemma prefix_nth: "prefix xs ys \<Longrightarrow> i < length xs \<Longrightarrow> xs ! i = ys ! i"
  by (auto simp: prefix_def nth_append)

lemma wait_in_forward_plan:
  "Waiter_wait operation n d k \<in> set (forward_plan m ps) \<Longrightarrow>
   operation = wait_operation_of m \<and> d = 5 \<and> k = 120"
  by (auto simp: forward_plan_def method_request_def split: if_splits)

lemma wait_in_teardown_plan:
  "Waiter_wait operation n d k \<in> set (teardown_plan ps) \<Longrightarrow>
   operation = ''stack_delete_complete'' \<and> d = 5 \<and> k = 120"
  by (auto simp: teardown_plan_def)

lemma result_parts: "res = (raised res, ops_after res, trace_after res)"
  by (simp add: raised_def ops_after_def trace_after_def)

subsection \<open>Sample runs\<close>

text \<open>Sample runs, evaluated.\<close>

lemma teardown_three_stacks:
  "delete_in_reverse_order accepting [] three_stacks
     = (None, three_stacks,
   [Called (Delete_stack ''s3'') (Inr None), LogInfo ''s3 is being deleted'',
    Called (Waiter_wait ''stack_delete_complete'' ''s3'' 5 120) (Inr None), LogInfo ''s3 is deleted'',
    Called (Delete_stack ''s2'') (Inr None), LogInfo ''s2 is being deleted'',
    Called (Waiter_wait ''stack_delete_complete'' ''s2'' 5 120) (Inr None), LogInfo ''s2 is deleted'',
    Called (Delete_stack ''s1'') (Inr None), LogInfo ''s1 is being deleted'',
    Called (Waiter_wait ''stack_delete_complete'' ''s1'' 5 120) (Inr None), LogInfo ''s1 is deleted''])"
  by (simp add: three_stacks_def delete_in_reverse_order_def delete_body_unfold log_caught_def
        accepting_def sample_op_def)

lemma create_two_stacks:
  "deploy_in_order accepting [] two_stacks Fn_create_stack
     = (None,
        [(sample_op ''git'')\<lparr>StackId := Some ''arn:git''\<rparr>,
         (sample_op ''build'')\<lparr>StackId := Some ''arn:build''\<rparr>],
        [Called (Create_stack (sample_op ''git'')) (Inr (Some ''arn:git'')),
         LogInfo ''git is being created'',
         Called (Waiter_wait ''stack_create_complete'' ''git'' 5 120) (Inr None),
         LogInfo ''git is created'',
         Called (Create_stack (sample_op ''build'')) (Inr (Some ''arn:build'')),
         LogInfo ''build is being created'',
         Called (Waiter_wait ''stack_create_complete'' ''build'' 5 120) (Inr None),
         LogInfo ''build is created''])"
  by (simp add: two_stacks_def deploy_in_order_accepted forward_body_unfold log_caught_def
        accepting_def sample_op_def method_request_def wait_operation_of_def message_of_def)

lemma update_two_stacks:
  "deploy_in_order accepting [] two_stacks Fn_update_stack
     = (None,
        [(sample_op ''git'')\<lparr>StackId := Some ''arn:git''\<rparr>,
         (sample_op ''build'')\<lparr>StackId := Some ''arn:build''\<rparr>],
        [Called (Update_stack (sample_op ''git'')) (Inr (Some ''arn:git'')),
         LogInfo ''git is being updated'',
         Called (Waiter_wait ''stack_update_complete'' ''git'' 5 120) (Inr None),
         LogInfo ''git is created'',
         Called (Update_stack (sample_op ''build'')) (Inr (Some ''arn:build'')),
         LogInfo ''build is being updated'',
         Called (Waiter_wait ''stack_update_complete'' ''build'' 5 120) (Inr None),
         LogInfo ''build is created''])"
  by (simp add: two_stacks_def deploy_in_order_accepted forward_body_unfold log_caught_def
        accepting_def sample_op_def method_request_def wait_operation_of_def message_of_def)

subsection \<open>A run without an error record\<close>

lemma forward_loop_plan:
  assumes "for_each (forward_body client m) t ps = (r0, ps0, t0)"
  shows "\<exists>new. t0 = t @ new \<and> \<not> list_ex is_LogError new
          \<and> prefix (requests new) (forward_plan m ps)"
proof -
  have "\<exists>new. t0 = t @ new \<and> \<not> list_ex is_LogError new
          \<and> prefix (requests new) (forward_plan m ps)
          \<and> list_all returned (butlast (calls new))
          \<and> (r0 = None \<longrightarrow> requests new = forward_plan m ps \<and> list_all returned (calls new))
          \<and> (\<forall>req e. (req, Inl e) \<in> set (calls new) \<longrightarrow> r0 = Some e)"
    unfolding forward_plan_def
    by (rule for_each_follows_plan [where body = "forward_body client m", OF _ assms])
       (rule forward_body_plan)
  then show ?thesis by blast
qed

lemma quiet_run_loop:
  assumes acc: "m = Fn_create_stack \<or> m = Fn_update_stack"
    and run: "deploy_in_order client t ps m = (r, ps', t')"
    and quiet: "\<not> list_ex is_LogError (drop (length t) t')"
  shows "for_each (forward_body client m) t ps = (None, ps', t')"
proof -
  obtain r0 ps0 t0 where f: "for_each (forward_body client m) t ps = (r0, ps0, t0)"
    by (cases "for_each (forward_body client m) t ps") auto
  from forward_loop_plan [OF f] obtain new where n: "t0 = t @ new" by blast
  show ?thesis
  proof (cases r0)
    case None
    with run acc f show ?thesis by (simp add: deploy_in_order_accepted log_caught_def)
  next
    case (Some e)
    with run acc f have "t' = t @ new @ [LogError e]"
      by (simp add: deploy_in_order_accepted log_caught_def n)
    with quiet show ?thesis by simp
  qed
qed

lemma forward_body_fails:
  assumes "client t1 (method_request m p) = Inl e
       \<or> (\<exists>sid. client t1 (method_request m p) = Inr (Some sid)
             \<and> client (t1 @ [Called (method_request m p) (Inr (Some sid)),
                            LogInfo (StackName p @ '' is being '' @ message_of m)])
                  (Waiter_wait (wait_operation_of m) (StackName p) 5 120) = Inl e)"
  shows "\<exists>p' t2. forward_body client m t1 p = (Some e, p', t2)"
  using assms by (auto simp: forward_body_unfold)

lemma create_s1:
  "deploy_in_order (rejecting ''s2'') [] [sample_op ''s1''] Fn_create_stack
     = (None, [(sample_op ''s1'')\<lparr>StackId := Some ''arn:s1''\<rparr>],
        [Called (Create_stack (sample_op ''s1'')) (Inr (Some ''arn:s1'')),
         LogInfo ''s1 is being created'',
         Called (Waiter_wait ''stack_create_complete'' ''s1'' 5 120) (Inr None),
         LogInfo ''s1 is created''])"
  by (simp add: deploy_in_order_accepted forward_body_unfold log_caught_def
        rejecting_def sample_op_def method_request_def wait_operation_of_def message_of_def)

lemma teardown_three_timing_out:
  "delete_in_reverse_order (timing_out ''s2'') [] three_stacks
     = (None, three_stacks,
        [Called (Delete_stack ''s3'') (Inr None), LogInfo ''s3 is being deleted'',
         Called (Waiter_wait ''stack_delete_complete'' ''s3'' 5 120) (Inr None),
         LogInfo ''s3 is deleted'',
         Called (Delete_stack ''s2'') (Inr None), LogInfo ''s2 is being deleted'',
         Called (Waiter_wait ''stack_delete_complete'' ''s2'' 5 120)
           (Inl (WaiterError ''Max attempts exceeded'')),
         LogError (WaiterError ''Max attempts exceeded'')])"
  by (simp add: three_stacks_def delete_in_reverse_order_def delete_body_unfold log_caught_def
        timing_out_def sample_op_def)

subsection \<open>What a pass of a body may change\<close>

lemma for_each_rel:
  assumes body: "\<And>t x r x' t'. body t x = (r, x', t') \<Longrightarrow> R x x'"
    and refl: "\<And>x. R x x"
    and run: "for_each body t xs = (r, xs', t')"
  shows "list_all2 R xs xs'"
  using run
proof (induction xs arbitrary: t r xs' t')
  case Nil
  then show ?case by simp
next
  case (Cons x xs)
  obtain r1 x1 t1 where b: "body t x = (r1, x1, t1)" by (cases "body t x") auto
  note rx = body [OF b]
  show ?case
  proof (cases r1)
    case (Some e)
    with Cons.prems b have "xs' = x1 # xs" by simp
    with rx refl show ?thesis by (simp add: list_all2_refl)
  next
    case None
    obtain r2 xs2 t2 where f: "for_each body t1 xs = (r2, xs2, t2)"
      by (cases "for_each body t1 xs") auto
    from Cons.prems b None f have "xs' = x1 # xs2" by simp
    with rx Cons.IH [OF f] show ?thesis by simp
  qed
qed

lemma deploy_body_frame:
  "deploy_body client method_fn wait_operation message t p = (r, p', t') \<Longrightarrow>
   p' = p \<or> (\<exists>sid. p' = p\<lparr>StackId := Some sid\<rparr>)"
  by (auto simp: deploy_body_def wait_stack_def Let_def split: prod.splits sum.splits option.splits)

lemma scripts_deploy_body_frame:
  "scripts_deploy_body client method_fn wait_operation message t p = (r, p', t') \<Longrightarrow>
   p' = p \<or> (\<exists>sid. p' = p\<lparr>StackId := Some sid\<rparr>)"
  by (auto simp: scripts_deploy_body_def wait_stack_def Let_def split: prod.splits sum.splits option.splits)

lemma delete_body_frame:
  "delete_body client t p = (r, p', t') \<Longrightarrow> p' = p \<or> p' = p\<lparr>StackId := None\<rparr>"
  by (auto simp: delete_body_def wait_stack_def delete_stack_def Let_def split: prod.splits sum.splits)

lemma ops_after_log_caught: "ops_after (log_caught res) = ops_after res"
  by (cases res rule: prod_cases3) (simp add: log_caught_def ops_after_def split: option.splits)

lemma deploy_in_order_frame:
  "list_all2 (\<lambda>p q. q = p \<or> (\<exists>sid. q = p\<lparr>StackId := Some sid\<rparr>))
     ps (ops_after (deploy_in_order client t ps m))"
proof -
  have loop: "list_all2 (\<lambda>p q. q = p \<or> (\<exists>sid. q = p\<lparr>StackId := Some sid\<rparr>))
      ps (ops_after (for_each (deploy_body client fn wo msg) t ps))" for fn wo msg
    by (rule for_each_rel [where body = "deploy_body client fn wo msg" and t = t
          and r = "raised (for_each (deploy_body client fn wo msg) t ps)"
          and t' = "trace_after (for_each (deploy_body client fn wo msg) t ps)"])
       (auto dest: deploy_body_frame simp: raised_def ops_after_def trace_after_def)
  show ?thesis
    by (simp add: deploy_in_order_def ops_after_log_caught loop)
       (simp add: ops_after_def list_all2_refl)
qed

lemma scripts_deploy_in_order_frame:
  "list_all2 (\<lambda>p q. q = p \<or> (\<exists>sid. q = p\<lparr>StackId := Some sid\<rparr>))
     ps (ops_after (scripts_deploy_in_order client t ps m))"
proof -
  have loop: "list_all2 (\<lambda>p q. q = p \<or> (\<exists>sid. q = p\<lparr>StackId := Some sid\<rparr>))
      ps (ops_after (for_each (scripts_deploy_body client fn wo msg) t ps))" for fn wo msg
    by (rule for_each_rel [where body = "scripts_deploy_body client fn wo msg" and t = t
          and r = "raised (for_each (scripts_deploy_body client fn wo msg) t ps)"
          and t' = "trace_after (for_each (scripts_deploy_body client fn wo msg) t ps)"])
       (auto dest: scripts_deploy_body_frame simp: raised_def ops_after_def trace_after_def)
  show ?thesis
    by (simp add: scripts_deploy_in_order_def ops_after_log_caught loop)
       (simp add: ops_after_def list_all2_refl)
qed

lemma delete_in_reverse_order_frame:
  "list_all2 (\<lambda>p q. q = p \<or> q = p\<lparr>StackId := None\<rparr>)
     ps (ops_after (delete_in_reverse_order client t ps))"
proof -
  let ?loop = "for_each (delete_body client) t (rev ps)"
  have "list_all2 (\<lambda>p q. q = p \<or> q = p\<lparr>StackId := None\<rparr>) (rev ps) (ops_after ?loop)"
    by (rule for_each_rel [where body = "delete_body client" and t = t
          and r = "raised ?loop" and t' = "trace_after ?loop"])
       (auto dest: delete_body_frame simp: raised_def ops_after_def trace_after_def)
  then have "list_all2 (\<lambda>p q. q = p \<or> q = p\<lparr>StackId := None\<rparr>)
               (rev (rev ps)) (rev (ops_after (log_caught ?loop)))"
    unfolding list_all2_rev ops_after_log_caught .
  moreover have "ops_after (delete_in_reverse_order client t ps) = rev (ops_after (log_caught ?loop))"
    by (simp add: delete_in_reverse_order_def ops_after_def split: prod.splits)
  ultimately show ?thesis by simp
qed

lemma deploy_workers_nth:
  "i < length seqs \<Longrightarrow> deploy_workers clients seqs m ! i = deploy_in_order (clients i) [] (seqs ! i) m"
  by (simp add: deploy_workers_def nth_enumerate_eq)

lemma delete_workers_nth:
  "i < length seqs \<Longrightarrow> delete_workers clients seqs ! i = delete_in_reverse_order (clients i) [] (seqs ! i)"
  by (simp add: delete_workers_def nth_enumerate_eq)

lemma length_workers:
  "length (deploy_workers clients seqs m) = length seqs"
  "length (scripts_deploy_workers clients seqs m) = length seqs"
  "length (delete_workers clients seqs) = length seqs"
  by (simp_all add: deploy_workers_def scripts_deploy_workers_def delete_workers_def)

subsection \<open>What leaves a runner\<close>

lemma raised_delete: "raised (delete_in_reverse_order client t ps) = None"
  using teardown_run [OF result_parts, of client t ps] by simp

lemma raised_deploy:
  "m = Fn_create_stack \<or> m = Fn_update_stack \<Longrightarrow> raised (deploy_in_order client t ps m) = None"
  using forward_run [OF _ result_parts, of m client t ps] by simp

lemma create_three_rejecting:
  "deploy_in_order (rejecting ''s2'') [] three_stacks Fn_create_stack
     = (None,
        [(sample_op ''s1'')\<lparr>StackId := Some ''arn:s1''\<rparr>, sample_op ''s2'', sample_op ''s3''],
        [Called (Create_stack (sample_op ''s1'')) (Inr (Some ''arn:s1'')),
         LogInfo ''s1 is being created'',
         Called (Waiter_wait ''stack_create_complete'' ''s1'' 5 120) (Inr None),
         LogInfo ''s1 is created'',
         Called (Create_stack (sample_op ''s2'')) (Inl (ClientError ''rejected'')),
         LogError (ClientError ''rejected'')])"
  by (simp add: three_stacks_def deploy_in_order_accepted forward_body_unfold log_caught_def
        rejecting_def sample_op_def method_request_def wait_operation_of_def message_of_def)

subsection \<open>The join loops\<close>

lemma join_loop_Some_False: "join_loop finish jobs n = Some y \<Longrightarrow> False"
  by (rule join_loop.raw_induct [where P = "\<lambda>_ _ _ _. False"])
     (simp_all add: truth_of_filter_object_def)

lemma join_loop_never: "join_loop finish jobs n = None"
  using join_loop_Some_False [of finish jobs n] by (cases "join_loop finish jobs n") auto

lemma scripts_join_loop_returns:
  "scripts_join_loop finish jobs n = Some (Max (insert n (finish ` set jobs)))"
proof (induction "Max (insert n (finish ` set jobs)) - n" arbitrary: n)
  case 0
  then have "Max (insert n (finish ` set jobs)) \<le> n" by simp
  then have le: "\<forall>job \<in> set jobs. finish job \<le> n" by simp
  then have "filter (\<lambda>job. n < finish job) jobs = []"
    by (auto simp: filter_empty_conv)
  moreover from le have "Max (insert n (finish ` set jobs)) = n"
    by (intro Max_eqI) auto
  ultimately show ?case
    by (subst scripts_join_loop.simps) (simp add: truth_of_list_def)
next
  case (Suc d)
  let ?M = "Max (insert n (finish ` set jobs))"
  from Suc.hyps(2) have lt: "n < ?M" by simp
  have "?M \<in> insert n (finish ` set jobs)" by (intro Max_in) auto
  with lt obtain job where job: "job \<in> set jobs" "finish job = ?M" by auto
  from job lt have "n < finish job" by simp
  with job(1) have ne: "filter (\<lambda>job. n < finish job) jobs \<noteq> []"
    unfolding filter_empty_conv by blast
  have M: "Max (insert (Suc n) (finish ` set jobs)) = ?M"
  proof (rule Max_eqI)
    show "finite (insert (Suc n) (finish ` set jobs))" by simp
    show "y \<le> ?M" if "y \<in> insert (Suc n) (finish ` set jobs)" for y
      using that lt by (auto intro: Max_ge)
    show "?M \<in> insert (Suc n) (finish ` set jobs)" using job by force
  qed
  with Suc.hyps(2) have "d = Max (insert (Suc n) (finish ` set jobs)) - Suc n" by simp
  from Suc.hyps(1) [OF this] M have "scripts_join_loop finish jobs (Suc n) = Some ?M" by simp
  with ne show ?case
    by (subst scripts_join_loop.simps) (simp add: truth_of_list_def)
qed

subsection \<open>Tracking the remote identifier\<close>

lemma remote_id_append: "remote_id n (t @ new) = foldl (track n) (remote_id n t) new"
  by (simp add: remote_id_def)

lemma track_simps:
  "track n cur (Called req (Inl e)) = cur"
  "track n cur (LogInfo s) = cur"
  "track n cur (LogError e) = cur"
  "track n cur (Called (Delete_stack n') (Inr y)) = cur"
  "track n cur (Called req (Inr None)) = (case req of
       Waiter_wait operation n' d k \<Rightarrow> if operation = ''stack_delete_complete'' \<and> n' = n then None else cur
     | _ \<Rightarrow> cur)"
  "track n cur (Called (Create_stack p) (Inr (Some sid))) = (if StackName p = n then Some sid else cur)"
  "track n cur (Called (Update_stack p) (Inr (Some sid))) = (if StackName p = n then Some sid else cur)"
  "track n cur (Called (Waiter_wait operation n' d k) (Inr y)) =
     (if operation = ''stack_delete_complete'' \<and> n' = n then None else cur)"
  by (auto simp: track_def split: request.splits option.splits)

lemma track_method_request:
  "track n cur (Called (method_request m p) (Inr (Some sid))) = (if StackName p = n then Some sid else cur)"
  by (simp add: method_request_def track_simps)

lemma wait_operation_of_not_delete: "wait_operation_of m \<noteq> ''stack_delete_complete''"
  by (simp add: wait_operation_of_def)

lemma forward_body_tracked:
  assumes "forward_body client m t p = (r, p', t')"
  shows "StackName p' = StackName p
       \<and> (StackId p = remote_id (StackName p) t \<longrightarrow> StackId p' = remote_id (StackName p) t')
       \<and> (n \<noteq> StackName p \<longrightarrow> remote_id n t' = remote_id n t)"
  using assms
proof (cases rule: forward_body_cases)
  case (call_raised e)
  then show ?thesis by (simp add: remote_id_append track_simps)
next
  case no_handle
  then show ?thesis
    by (simp add: remote_id_append track_simps method_request_def)
next
  case (wait_raised sid s1 e)
  then show ?thesis
    by (simp add: remote_id_append track_simps track_method_request)
next
  case (completed sid s1 x s2)
  then show ?thesis
    by (simp add: remote_id_append track_simps track_method_request wait_operation_of_not_delete)
qed

lemma delete_body_tracked:
  assumes "delete_body client t p = (r, p', t')"
  shows "StackName p' = StackName p
       \<and> (StackId p = remote_id (StackName p) t \<longrightarrow> StackId p' = remote_id (StackName p) t')
       \<and> (n \<noteq> StackName p \<longrightarrow> remote_id n t' = remote_id n t)"
  using assms
proof (cases rule: delete_body_cases)
  case (call_raised e)
  then show ?thesis by (simp add: remote_id_append track_simps)
next
  case (wait_raised y s1 e)
  then show ?thesis by (simp add: remote_id_append track_simps)
next
  case (completed y s1 x s2)
  then show ?thesis by (simp add: remote_id_append track_simps)
qed

lemma for_each_tracked:
  assumes body: "\<And>t p r p' t' n. body t p = (r, p', t') \<Longrightarrow>
       StackName p' = StackName p
       \<and> (StackId p = remote_id (StackName p) t \<longrightarrow> StackId p' = remote_id (StackName p) t')
       \<and> (n \<noteq> StackName p \<longrightarrow> remote_id n t' = remote_id n t)"
    and dist: "distinct (map StackName ps)"
    and inv: "tracked t ps"
    and run: "for_each body t ps = (r, ps', t')"
  shows "tracked t' ps' \<and> map StackName ps' = map StackName ps
         \<and> (\<forall>n. n \<notin> StackName ` set ps \<longrightarrow> remote_id n t' = remote_id n t)"
  using dist inv run
proof (induction ps arbitrary: t r ps' t')
  case Nil
  then show ?case by (simp add: tracked_def)
next
  case (Cons p ps)
  obtain r1 p1 t1 where b: "body t p = (r1, p1, t1)" by (cases "body t p") auto
  from Cons.prems(2) have invp: "StackId p = remote_id (StackName p) t"
    and invps: "\<And>q. q \<in> set ps \<Longrightarrow> StackId q = remote_id (StackName q) t"
    by (simp_all add: tracked_def list_all_iff)
  have name1: "StackName p1 = StackName p"
    using body [OF b] by simp
  have id1: "StackId p1 = remote_id (StackName p) t1"
    using body [OF b] invp by simp
  have other: "remote_id n t1 = remote_id n t" if "n \<noteq> StackName p" for n
    using body [OF b, of n] that by simp
  from Cons.prems(1) have notin: "StackName p \<notin> StackName ` set ps"
    and dps: "distinct (map StackName ps)"
    by simp_all
  have inv1: "tracked t1 ps"
    unfolding tracked_def list_all_iff
  proof
    fix q assume q: "q \<in> set ps"
    then have "StackName q \<in> StackName ` set ps" by (rule imageI)
    with notin have "StackName q \<noteq> StackName p" by metis
    from other [OF this] invps [OF q] show "StackId q = remote_id (StackName q) t1" by simp
  qed
  show ?case
  proof (cases r1)
    case (Some e)
    with Cons.prems(3) b have eq: "ps' = p1 # ps" "t' = t1" by simp_all
    have "tracked t1 (p1 # ps)"
      using inv1 id1 name1 by (simp add: tracked_def)
    moreover have "map StackName (p1 # ps) = map StackName (p # ps)"
      using name1 by simp
    moreover have "\<forall>n. n \<notin> StackName ` set (p # ps) \<longrightarrow> remote_id n t1 = remote_id n t"
      using other by simp
    ultimately show ?thesis unfolding eq by blast
  next
    case None
    obtain r2 ps2 t2 where f: "for_each body t1 ps = (r2, ps2, t2)"
      by (cases "for_each body t1 ps") auto
    from Cons.prems(3) b None f have eq: "ps' = p1 # ps2" "t' = t2" by simp_all
    from Cons.IH [OF dps inv1 f] have ih1: "tracked t2 ps2"
      and ih2: "map StackName ps2 = map StackName ps"
      and ih3: "\<And>n. n \<notin> StackName ` set ps \<Longrightarrow> remote_id n t2 = remote_id n t1"
      by simp_all
    from ih3 [OF notin] id1 name1 have "StackId p1 = remote_id (StackName p1) t2" by simp
    with ih1 have "tracked t2 (p1 # ps2)" by (simp add: tracked_def)
    moreover have "map StackName (p1 # ps2) = map StackName (p # ps)"
      using name1 ih2 by simp
    moreover have "remote_id n t2 = remote_id n t" if "n \<notin> StackName ` set (p # ps)" for n
    proof -
      from that have "n \<noteq> StackName p" "n \<notin> StackName ` set ps" by simp_all
      with ih3 [of n] other [of n] show ?thesis by simp
    qed
    ultimately show ?thesis unfolding eq by blast
  qed
qed

lemma tracked_rev: "tracked t (rev ps) = tracked t ps"
  by (simp add: tracked_def list_all_iff)

lemma tracked_log_caught:
  "tracked (trace_after (log_caught res)) (ops_after (log_caught res))
     = tracked (trace_after res) (ops_after res)"
  by (cases res rule: prod_cases3)
     (simp add: log_caught_def trace_after_def ops_after_def tracked_def remote_id_append track_simps
        split: option.splits)

lemma forward_loop_tracked:
  assumes "distinct (map StackName ps)" and "tracked t ps"
  shows "tracked (trace_after (for_each (forward_body client m) t ps))
                 (ops_after (for_each (forward_body client m) t ps))"
proof -
  have "tracked (trace_after (for_each (forward_body client m) t ps))
                (ops_after (for_each (forward_body client m) t ps))
        \<and> map StackName (ops_after (for_each (forward_body client m) t ps)) = map StackName ps
        \<and> (\<forall>n. n \<notin> StackName ` set ps \<longrightarrow>
              remote_id n (trace_after (for_each (forward_body client m) t ps)) = remote_id n t)"
    by (rule for_each_tracked [where body = "forward_body client m", OF _ assms result_parts])
       (rule forward_body_tracked)
  then show ?thesis by simp
qed

lemma teardown_loop_tracked:
  assumes "distinct (map StackName ps)" and "tracked t ps"
  shows "tracked (trace_after (for_each (delete_body client) t ps))
                 (ops_after (for_each (delete_body client) t ps))"
proof -
  have "tracked (trace_after (for_each (delete_body client) t ps))
                (ops_after (for_each (delete_body client) t ps))
        \<and> map StackName (ops_after (for_each (delete_body client) t ps)) = map StackName ps
        \<and> (\<forall>n. n \<notin> StackName ` set ps \<longrightarrow>
              remote_id n (trace_after (for_each (delete_body client) t ps)) = remote_id n t)"
    by (rule for_each_tracked [where body = "delete_body client", OF _ assms result_parts])
       (rule delete_body_tracked)
  then show ?thesis by simp
qed

lemma teardown_after_create:
  "delete_in_reverse_order accepting
       (trace_after (deploy_in_order accepting [] two_stacks Fn_create_stack))
       (ops_after (deploy_in_order accepting [] two_stacks Fn_create_stack))
     = (None, two_stacks,
        trace_after (deploy_in_order accepting [] two_stacks Fn_create_stack) @
        [Called (Delete_stack ''build'') (Inr None), LogInfo ''build is being deleted'',
         Called (Waiter_wait ''stack_delete_complete'' ''build'' 5 120) (Inr None),
         LogInfo ''build is deleted'',
         Called (Delete_stack ''git'') (Inr None), LogInfo ''git is being deleted'',
         Called (Waiter_wait ''stack_delete_complete'' ''git'' 5 120) (Inr None),
         LogInfo ''git is deleted''])"
  unfolding create_two_stacks trace_after_def ops_after_def snd_conv fst_conv
  by (simp add: two_stacks_def delete_in_reverse_order_def delete_body_unfold log_caught_def
        accepting_def sample_op_def)

subsection \<open>An object that compares equal but cannot be called\<close>

lemma raised_log_caught: "raised (log_caught res) = None"
  by (cases res rule: prod_cases3) (simp add: log_caught_def raised_def split: option.splits)

lemma raised_deploy_equal:
  "equals_create_stack m \<or> equals_update_stack m \<Longrightarrow> raised (deploy_in_order client t ps m) = None"
  by (auto simp: deploy_in_order_def raised_log_caught)

lemma uncallable_loop:
  "for_each (deploy_body client (\<lambda>client t stack_param. (Inl (TypeError name), t))
       wait_operation message) t ps
     = (if ps = [] then (None, [], t) else (Some (TypeError name), ps, t))"
  by (cases ps) (simp_all add: deploy_body_def)

lemma scripts_uncallable_loop:
  "for_each (scripts_deploy_body client (\<lambda>client t stack_param. (Inl (TypeError name), t))
       wait_operation message) t ps
     = (if ps = [] then (None, [], t) else (Some (TypeError name), ps, t))"
  by (cases ps) (simp_all add: scripts_deploy_body_def)

lemma uncallable_run:
  assumes "c \<or> u"
  shows "deploy_in_order client t ps (Fn_other name c u)
     = (None, ps, if ps = [] then t else t @ [LogError (TypeError name)])"
  using assms by (auto simp: deploy_in_order_def uncallable_loop log_caught_def)

lemma scripts_uncallable_run:
  assumes "c \<or> u"
  shows "scripts_deploy_in_order client t ps (Fn_other name c u)
     = (None, ps, if ps = [] then t else t @ [LogError (TypeError name)])"
  using assms by (auto simp: scripts_deploy_in_order_def scripts_uncallable_loop log_caught_def)

lemma method_cases:
  obtains (accepted) "m = Fn_create_stack \<or> m = Fn_update_stack"
  | (uncallable) name c u where "m = Fn_other name c u" "c \<or> u"
  | (rejected) "\<not> equals_create_stack m" "\<not> equals_update_stack m"
  by (cases m) auto

section \<open>Rejection of a method that compares equal to neither function\<close>

text \<open>
  C9, as amended. Given a method for which both tests \<^verbatim>\<open>method == create_stack\<close> and
  \<^verbatim>\<open>method == update_stack\<close> are false, \<^verbatim>\<open>deploy_in_order\<close> (in both files) raises
  \<^verbatim>\<open>ValueError(method)\<close> to its caller: the trace is the one it was given, so no client
  call, no wait and no log record of the handler happened, and every operation is as it was.
\<close>

theorem deploy_in_order_rejects_unequal_method:
  assumes "\<not> equals_create_stack m" and "\<not> equals_update_stack m"
  shows "deploy_in_order client t stack_params m = (Some (ValueError m), stack_params, t)
       \<and> scripts_deploy_in_order client t stack_params m = (Some (ValueError m), stack_params, t)"
  using assms by (simp add: deploy_in_order_def scripts_deploy_in_order_def)

theorem deploy_in_order_rejects_unequal_method_witness:
  "\<not> equals_create_stack (Fn_other ''delete_stack'' False False)
   \<and> \<not> equals_update_stack (Fn_other ''delete_stack'' False False)
   \<and> deploy_in_order accepting [] [sample_op ''a''] (Fn_other ''delete_stack'' False False)
       = (Some (ValueError (Fn_other ''delete_stack'' False False)), [sample_op ''a''], [])
   \<and> scripts_deploy_in_order accepting [] [sample_op ''a''] (Fn_other ''delete_stack'' False False)
       = (Some (ValueError (Fn_other ''delete_stack'' False False)), [sample_op ''a''], [])"
  using deploy_in_order_rejects_unequal_method
          [of "Fn_other ''delete_stack'' False False" accepting "[]" "[sample_op ''a'']"]
  by simp

text \<open>
  The claim as first stated, for every method other than the two functions, fails:
  \<^verbatim>\<open>unittest.mock.ANY\<close> is neither function and compares equal to both, so the first test
  succeeds and no \<^verbatim>\<open>ValueError\<close> is raised. The loop then calls the object, the
  \<^verbatim>\<open>TypeError\<close> of that call is caught and logged by the handler, and the runner returns.
\<close>

theorem other_method_comparing_equal_is_accepted:
  "Fn_other ''ANY'' True True \<noteq> Fn_create_stack
   \<and> Fn_other ''ANY'' True True \<noteq> Fn_update_stack
   \<and> deploy_in_order accepting [] [sample_op ''a''] (Fn_other ''ANY'' True True)
       = (None, [sample_op ''a''], [LogError (TypeError ''ANY'')])
   \<and> scripts_deploy_in_order accepting [] [sample_op ''a''] (Fn_other ''ANY'' True True)
       = (None, [sample_op ''a''], [LogError (TypeError ''ANY'')])
   \<and> raised (deploy_in_order accepting [] [sample_op ''a''] (Fn_other ''ANY'' True True))
       \<noteq> Some (ValueError (Fn_other ''ANY'' True True))"
  by (simp add: uncallable_run scripts_uncallable_run raised_def)

section \<open>Order of a teardown\<close>

text \<open>
  C4. \<^verbatim>\<open>delete_in_reverse_order\<close> on \<open>[s1, ..., sk]\<close> makes its client requests along
  \<open>teardown_plan\<close>: delete \<open>sk\<close>, wait for \<open>sk\<close>, ..., delete \<open>s1\<close>, wait for \<open>s1\<close>.
  The requests of any run are an initial part of that list (the run stops at the first
  failure), and all of it when the handler logged no error.
\<close>

theorem teardown_order:
  "\<exists>new. trace_after (delete_in_reverse_order client t ps) = t @ new
      \<and> prefix (requests new) (teardown_plan ps)
      \<and> (\<not> list_ex is_LogError new \<longrightarrow> requests new = teardown_plan ps)"
  using teardown_run [OF result_parts] by blast

theorem teardown_order_witness:
  "\<not> list_ex is_LogError (trace_after (delete_in_reverse_order accepting [] three_stacks))
   \<and> requests (trace_after (delete_in_reverse_order accepting [] three_stacks))
     = [Delete_stack ''s3'', Waiter_wait ''stack_delete_complete'' ''s3'' 5 120,
        Delete_stack ''s2'', Waiter_wait ''stack_delete_complete'' ''s2'' 5 120,
        Delete_stack ''s1'', Waiter_wait ''stack_delete_complete'' ''s1'' 5 120]"
proof -
  have plan: "teardown_plan three_stacks
     = [Delete_stack ''s3'', Waiter_wait ''stack_delete_complete'' ''s3'' 5 120,
        Delete_stack ''s2'', Waiter_wait ''stack_delete_complete'' ''s2'' 5 120,
        Delete_stack ''s1'', Waiter_wait ''stack_delete_complete'' ''s1'' 5 120]"
    by (simp add: teardown_plan_def three_stacks_def sample_op_def)
  have quiet: "\<not> list_ex is_LogError (trace_after (delete_in_reverse_order accepting [] three_stacks))"
    by (simp add: teardown_three_stacks trace_after_def)
  from teardown_order [of accepting "[]" three_stacks] quiet
  have "requests (trace_after (delete_in_reverse_order accepting [] three_stacks))
          = teardown_plan three_stacks"
    by auto
  with quiet plan show ?thesis by simp
qed

section \<open>Order inside a forward run\<close>

text \<open>
  C7. In a run of \<^verbatim>\<open>deploy_in_order\<close> with an accepted method the client requests follow
  \<open>forward_plan\<close>: call \<open>s1\<close>, wait \<open>s1\<close>, ..., call \<open>sk\<close>, wait \<open>sk\<close>. Wherever the call
  for operation \<open>i + 1\<close> occurs among the client calls (at position \<open>2 * i + 2\<close>), the call
  just before it is the wait for operation \<open>i\<close>, and that wait returned. When the handler
  logged no error the requests are the whole plan.
\<close>

theorem forward_strict_order:
  assumes "m = Fn_create_stack \<or> m = Fn_update_stack"
  shows "\<exists>new. trace_after (deploy_in_order client t ps m) = t @ new
     \<and> prefix (requests new) (forward_plan m ps)
     \<and> (\<forall>i. 2 * i + 2 < length (calls new) \<longrightarrow>
           fst (calls new ! (2 * i + 2)) = method_request m (ps ! (i + 1))
         \<and> fst (calls new ! (2 * i + 1)) = Waiter_wait (wait_operation_of m) (StackName (ps ! i)) 5 120
         \<and> returned (calls new ! (2 * i + 1)))
     \<and> (\<not> list_ex is_LogError new \<longrightarrow> requests new = forward_plan m ps)"
proof -
  from forward_run [OF assms result_parts] obtain new where n:
    "trace_after (deploy_in_order client t ps m) = t @ new"
    "prefix (requests new) (forward_plan m ps)"
    "list_all returned (butlast (calls new))"
    "\<not> list_ex is_LogError new \<longrightarrow> requests new = forward_plan m ps"
    by blast
  have ord: "fst (calls new ! (2 * i + 2)) = method_request m (ps ! (i + 1))
         \<and> fst (calls new ! (2 * i + 1)) = Waiter_wait (wait_operation_of m) (StackName (ps ! i)) 5 120
         \<and> returned (calls new ! (2 * i + 1))" if i: "2 * i + 2 < length (calls new)" for i
  proof -
    have len: "length (requests new) = length (calls new)" by (simp add: requests_def)
    from prefix_length_le [OF n(2)] i len have "2 * i + 2 < 2 * length ps"
      by (simp add: length_forward_plan)
    then have ip: "i + 1 < length ps" "i < length ps" by simp_all
    have a: "requests new ! (2 * i + 2) = forward_plan m ps ! (2 * (i + 1))"
      using prefix_nth [OF n(2), of "2 * i + 2"] i len by simp
    have b: "requests new ! (2 * i + 1) = forward_plan m ps ! (2 * i + 1)"
      using prefix_nth [OF n(2), of "2 * i + 1"] i len by simp
    have c: "calls new ! (2 * i + 1) \<in> set (butlast (calls new))"
      using i by (metis (no_types, lifting) add_lessD1 length_butlast less_diff_conv nth_butlast nth_mem
          one_add_one add.assoc)
    from a b c n(3) forward_plan_nth [OF ip(1), of m] forward_plan_nth [OF ip(2), of m] i
    show ?thesis by (simp add: requests_def list_all_iff)
  qed
  from n ord show ?thesis by blast
qed

theorem forward_strict_order_witness:
  "(Fn_create_stack = Fn_create_stack \<or> Fn_create_stack = Fn_update_stack)
   \<and> 2 * 0 + 2 < length (calls (trace_after (deploy_in_order accepting [] two_stacks Fn_create_stack)))
   \<and> fst (calls (trace_after (deploy_in_order accepting [] two_stacks Fn_create_stack)) ! 2)
       = Create_stack (sample_op ''build'')
   \<and> calls (trace_after (deploy_in_order accepting [] two_stacks Fn_create_stack)) ! 1
       = (Waiter_wait ''stack_create_complete'' ''git'' 5 120, Inr None)
   \<and> \<not> list_ex is_LogError (trace_after (deploy_in_order accepting [] two_stacks Fn_create_stack))
   \<and> requests (trace_after (deploy_in_order accepting [] two_stacks Fn_create_stack))
       = [Create_stack (sample_op ''git''), Waiter_wait ''stack_create_complete'' ''git'' 5 120,
          Create_stack (sample_op ''build''), Waiter_wait ''stack_create_complete'' ''build'' 5 120]"
proof -
  let ?t = "trace_after (deploy_in_order accepting [] two_stacks Fn_create_stack)"
  have len: "2 * 0 + 2 < length (calls ?t)" and quiet: "\<not> list_ex is_LogError ?t"
    by (simp_all add: create_two_stacks trace_after_def)
  have plan: "forward_plan Fn_create_stack two_stacks
       = [Create_stack (sample_op ''git''), Waiter_wait ''stack_create_complete'' ''git'' 5 120,
          Create_stack (sample_op ''build''), Waiter_wait ''stack_create_complete'' ''build'' 5 120]"
    by (simp add: forward_plan_def two_stacks_def sample_op_def method_request_def wait_operation_of_def)
  from forward_strict_order [of Fn_create_stack accepting "[]" two_stacks]
  obtain new where n: "?t = [] @ new"
    and ord: "\<forall>i. 2 * i + 2 < length (calls new) \<longrightarrow>
           fst (calls new ! (2 * i + 2)) = method_request Fn_create_stack (two_stacks ! (i + 1))
         \<and> fst (calls new ! (2 * i + 1))
             = Waiter_wait (wait_operation_of Fn_create_stack) (StackName (two_stacks ! i)) 5 120
         \<and> returned (calls new ! (2 * i + 1))"
    and full: "\<not> list_ex is_LogError new \<longrightarrow> requests new = forward_plan Fn_create_stack two_stacks"
    by blast
  from n have new: "new = ?t" by simp
  from ord [rule_format, of 0] full len quiet
  have "fst (calls ?t ! (2 * 0 + 2)) = method_request Fn_create_stack (two_stacks ! (0 + 1))"
    and "requests ?t = forward_plan Fn_create_stack two_stacks"
    unfolding new by simp_all
  moreover have "method_request Fn_create_stack (two_stacks ! (0 + 1)) = Create_stack (sample_op ''build'')"
    by (simp add: method_request_def two_stacks_def)
  moreover have "calls ?t ! 1 = (Waiter_wait ''stack_create_complete'' ''git'' 5 120, Inr None)"
    by (simp add: create_two_stacks trace_after_def)
  ultimately show ?thesis
    using len quiet plan by (simp add: numeral_2_eq_2)
qed

section \<open>The wait budget\<close>

text \<open>
  C8. \<^verbatim>\<open>wait_stack\<close> called without delay and attempts asks the waiter for a delay of 5
  and at most 120 attempts. Every wait of a forward run has that budget and waits for
  \<^verbatim>\<open>stack_create_complete\<close> when the method is \<^verbatim>\<open>create_stack\<close>, for
  \<^verbatim>\<open>stack_update_complete\<close> when it is \<^verbatim>\<open>update_stack\<close>; every wait of a teardown has
  that budget and waits for \<^verbatim>\<open>stack_delete_complete\<close>.
\<close>

theorem wait_budget:
  "snd (wait_stack client t operation n None None)
     = t @ [Called (Waiter_wait operation n 5 120) (client t (Waiter_wait operation n 5 120))]
   \<and> (m = Fn_create_stack \<or> m = Fn_update_stack \<longrightarrow>
        (\<exists>new. trace_after (deploy_in_order client t ps m) = t @ new
           \<and> (\<forall>operation n d k. Waiter_wait operation n d k \<in> set (requests new) \<longrightarrow>
                 d = 5 \<and> k = 120
               \<and> (m = Fn_create_stack \<longrightarrow> operation = ''stack_create_complete'')
               \<and> (m = Fn_update_stack \<longrightarrow> operation = ''stack_update_complete''))))
   \<and> (\<exists>new. trace_after (delete_in_reverse_order client t ps) = t @ new
           \<and> (\<forall>operation n d k. Waiter_wait operation n d k \<in> set (requests new) \<longrightarrow>
                 d = 5 \<and> k = 120 \<and> operation = ''stack_delete_complete''))"
proof (intro conjI impI)
  show "snd (wait_stack client t operation n None None)
     = t @ [Called (Waiter_wait operation n 5 120) (client t (Waiter_wait operation n 5 120))]"
    by (simp add: wait_stack_def Let_def)
next
  assume acc: "m = Fn_create_stack \<or> m = Fn_update_stack"
  from forward_run [OF acc result_parts] obtain new where n:
    "trace_after (deploy_in_order client t ps m) = t @ new"
    "prefix (requests new) (forward_plan m ps)"
    by blast
  have "d = 5 \<and> k = 120
               \<and> (m = Fn_create_stack \<longrightarrow> operation = ''stack_create_complete'')
               \<and> (m = Fn_update_stack \<longrightarrow> operation = ''stack_update_complete'')"
    if "Waiter_wait operation n d k \<in> set (requests new)" for operation n d k
    using wait_in_forward_plan [of operation n d k m ps] set_mono_prefix [OF n(2)] that
    by (auto simp: wait_operation_of_def)
  with n(1) show "\<exists>new. trace_after (deploy_in_order client t ps m) = t @ new
           \<and> (\<forall>operation n d k. Waiter_wait operation n d k \<in> set (requests new) \<longrightarrow>
                 d = 5 \<and> k = 120
               \<and> (m = Fn_create_stack \<longrightarrow> operation = ''stack_create_complete'')
               \<and> (m = Fn_update_stack \<longrightarrow> operation = ''stack_update_complete''))"
    by blast
next
  from teardown_run [OF result_parts] obtain new where n:
    "trace_after (delete_in_reverse_order client t ps) = t @ new"
    "prefix (requests new) (teardown_plan ps)"
    by blast
  have "d = 5 \<and> k = 120 \<and> operation = ''stack_delete_complete''"
    if "Waiter_wait operation n d k \<in> set (requests new)" for operation n d k
    using wait_in_teardown_plan [of operation n d k ps] set_mono_prefix [OF n(2)] that
    by auto
  with n(1) show "\<exists>new. trace_after (delete_in_reverse_order client t ps) = t @ new
           \<and> (\<forall>operation n d k. Waiter_wait operation n d k \<in> set (requests new) \<longrightarrow>
                 d = 5 \<and> k = 120 \<and> operation = ''stack_delete_complete'')"
    by blast
qed

theorem wait_budget_witness:
  "(Fn_update_stack = Fn_create_stack \<or> Fn_update_stack = Fn_update_stack)
   \<and> Waiter_wait ''stack_update_complete'' ''git'' 5 120
        \<in> set (requests (trace_after (deploy_in_order accepting [] two_stacks Fn_update_stack)))
   \<and> Waiter_wait ''stack_delete_complete'' ''s3'' 5 120
        \<in> set (requests (trace_after (delete_in_reverse_order accepting [] three_stacks)))
   \<and> list_all (\<lambda>req. case req of Waiter_wait operation n d k \<Rightarrow>
                          d = 5 \<and> k = 120 \<and> operation = ''stack_update_complete''
                      | _ \<Rightarrow> True)
        (requests (trace_after (deploy_in_order accepting [] two_stacks Fn_update_stack)))
   \<and> list_all (\<lambda>req. case req of Waiter_wait operation n d k \<Rightarrow>
                          d = 5 \<and> k = 120 \<and> operation = ''stack_delete_complete''
                      | _ \<Rightarrow> True)
        (requests (trace_after (delete_in_reverse_order accepting [] three_stacks)))"
proof -
  let ?u = "trace_after (deploy_in_order accepting [] two_stacks Fn_update_stack)"
  let ?d = "trace_after (delete_in_reverse_order accepting [] three_stacks)"
  note wb = wait_budget [of accepting "[]" "''stack_update_complete''" "''git''" Fn_update_stack]
  from wb [of two_stacks]
  have u: "\<forall>operation n d k. Waiter_wait operation n d k \<in> set (requests ?u) \<longrightarrow>
             d = 5 \<and> k = 120 \<and> operation = ''stack_update_complete''"
    by simp
  from wb [of three_stacks]
  have d: "\<forall>operation n d k. Waiter_wait operation n d k \<in> set (requests ?d) \<longrightarrow>
             d = 5 \<and> k = 120 \<and> operation = ''stack_delete_complete''"
    by simp
  have mu: "Waiter_wait ''stack_update_complete'' ''git'' 5 120 \<in> set (requests ?u)"
    by (simp add: update_two_stacks trace_after_def requests_def)
  have md: "Waiter_wait ''stack_delete_complete'' ''s3'' 5 120 \<in> set (requests ?d)"
    by (simp add: teardown_three_stacks trace_after_def requests_def)
  from u have lu: "list_all (\<lambda>req. case req of Waiter_wait operation n d k \<Rightarrow>
                          d = 5 \<and> k = 120 \<and> operation = ''stack_update_complete''
                      | _ \<Rightarrow> True) (requests ?u)"
    by (auto simp: list_all_iff split: request.splits)
  from d have ld: "list_all (\<lambda>req. case req of Waiter_wait operation n d k \<Rightarrow>
                          d = 5 \<and> k = 120 \<and> operation = ''stack_delete_complete''
                      | _ \<Rightarrow> True) (requests ?d)"
    by (auto simp: list_all_iff split: request.splits)
  from mu md lu ld show ?thesis by simp
qed

section \<open>Abort on the first failure\<close>

text \<open>
  C3. Let the forward run on the operations before \<open>p\<close> end without an error in the log,
  with trace \<open>t1\<close>, and let \<open>p\<close> fail there: its call raises \<open>e\<close>, or its call returns a
  handle and its wait raises \<open>e\<close>. Then the run on the whole sequence \<open>pre @ p # post\<close>
  hands back \<open>post\<close> as it was given (no \<^verbatim>\<open>StackId\<close> assigned to any of its operations),
  and its trace is the trace of the run on \<open>pre @ [p]\<close> alone: it holds requests of the
  plan for \<open>pre @ [p]\<close> only, so no call and no wait was made for an operation of
  \<open>post\<close>, and it ends with the one log record of \<open>e\<close>.
\<close>

theorem abort_on_failure:
  assumes acc: "m = Fn_create_stack \<or> m = Fn_update_stack"
    and before: "deploy_in_order client t pre m = (r, pre', t1)"
    and quiet: "\<not> list_ex is_LogError (drop (length t) t1)"
    and fails: "client t1 (method_request m p) = Inl e
       \<or> (\<exists>sid. client t1 (method_request m p) = Inr (Some sid)
             \<and> client (t1 @ [Called (method_request m p) (Inr (Some sid)),
                            LogInfo (StackName p @ '' is being '' @ message_of m)])
                  (Waiter_wait (wait_operation_of m) (StackName p) 5 120) = Inl e)"
  shows "\<exists>p' t2 new.
           deploy_in_order client t (pre @ p # post) m = (None, pre' @ p' # post, t2 @ [LogError e])
         \<and> deploy_in_order client t (pre @ [p]) m = (None, pre' @ [p'], t2 @ [LogError e])
         \<and> t2 = t @ new \<and> prefix (requests new) (forward_plan m (pre @ [p]))"
proof -
  from quiet_run_loop [OF acc before quiet]
  have loop: "for_each (forward_body client m) t pre = (None, pre', t1)" .
  from forward_body_fails [OF fails] obtain p' t2 where
    b: "forward_body client m t1 p = (Some e, p', t2)" by blast
  have whole: "deploy_in_order client t (pre @ p # post) m = (None, pre' @ p' # post, t2 @ [LogError e])"
    for post
    using for_each_stops [OF loop b, of post] acc
    by (simp add: deploy_in_order_accepted log_caught_def)
  from for_each_stops [OF loop b, of "[]"]
  have "for_each (forward_body client m) t (pre @ [p]) = (Some e, pre' @ [p'], t2)" by simp
  from forward_loop_plan [OF this] obtain new where
    "t2 = t @ new" "prefix (requests new) (forward_plan m (pre @ [p]))"
    by blast
  with whole [of post] whole [of "[]"] show ?thesis by auto
qed

theorem abort_on_failure_witness:
  "(Fn_create_stack = Fn_create_stack \<or> Fn_create_stack = Fn_update_stack)
   \<and> rejecting ''s2''
        [Called (Create_stack (sample_op ''s1'')) (Inr (Some ''arn:s1'')),
         LogInfo ''s1 is being created'',
         Called (Waiter_wait ''stack_create_complete'' ''s1'' 5 120) (Inr None),
         LogInfo ''s1 is created'']
        (Create_stack (sample_op ''s2'')) = Inl (ClientError ''rejected'')
   \<and> trace_after (deploy_in_order (rejecting ''s2'') [] three_stacks Fn_create_stack)
       = trace_after (deploy_in_order (rejecting ''s2'') [] [sample_op ''s1'', sample_op ''s2''] Fn_create_stack)
   \<and> drop 2 (ops_after (deploy_in_order (rejecting ''s2'') [] three_stacks Fn_create_stack))
       = [sample_op ''s3'']
   \<and> StackId (ops_after (deploy_in_order (rejecting ''s2'') [] three_stacks Fn_create_stack) ! 2) = None"
proof -
  let ?t1 = "[Called (Create_stack (sample_op ''s1'')) (Inr (Some ''arn:s1'')),
         LogInfo ''s1 is being created'',
         Called (Waiter_wait ''stack_create_complete'' ''s1'' 5 120) (Inr None),
         LogInfo ''s1 is created'']"
  have acc: "Fn_create_stack = Fn_create_stack \<or> Fn_create_stack = Fn_update_stack" by simp
  have before: "deploy_in_order (rejecting ''s2'') [] [sample_op ''s1''] Fn_create_stack
     = (None, [(sample_op ''s1'')\<lparr>StackId := Some ''arn:s1''\<rparr>], ?t1)"
    by (rule create_s1)
  have quiet: "\<not> list_ex is_LogError (drop (length ([]::event list)) ?t1)" by simp
  have rej: "rejecting ''s2'' ?t1 (Create_stack (sample_op ''s2'')) = Inl (ClientError ''rejected'')"
    by (simp add: rejecting_def sample_op_def)
  then have fails: "rejecting ''s2'' ?t1 (method_request Fn_create_stack (sample_op ''s2''))
          = Inl (ClientError ''rejected'')
       \<or> (\<exists>sid. rejecting ''s2'' ?t1 (method_request Fn_create_stack (sample_op ''s2'')) = Inr (Some sid)
             \<and> rejecting ''s2'' (?t1 @ [Called (method_request Fn_create_stack (sample_op ''s2'')) (Inr (Some sid)),
                            LogInfo (StackName (sample_op ''s2'') @ '' is being '' @ message_of Fn_create_stack)])
                  (Waiter_wait (wait_operation_of Fn_create_stack) (StackName (sample_op ''s2'')) 5 120)
                = Inl (ClientError ''rejected''))"
    by (simp add: method_request_def)
  from abort_on_failure [OF acc before quiet fails, of "[sample_op ''s3'']"]
  obtain p' t2 where
    "deploy_in_order (rejecting ''s2'') [] three_stacks Fn_create_stack
       = (None, [(sample_op ''s1'')\<lparr>StackId := Some ''arn:s1''\<rparr>, p', sample_op ''s3''],
          t2 @ [LogError (ClientError ''rejected'')])"
    "deploy_in_order (rejecting ''s2'') [] [sample_op ''s1'', sample_op ''s2''] Fn_create_stack
       = (None, [(sample_op ''s1'')\<lparr>StackId := Some ''arn:s1''\<rparr>, p'],
          t2 @ [LogError (ClientError ''rejected'')])"
    by (auto simp: three_stacks_def)
  then show ?thesis
    using rej by (simp add: trace_after_def ops_after_def sample_op_def)
qed

section \<open>Failures stay inside the runner\<close>

text \<open>
  C6. With an accepted method \<^verbatim>\<open>deploy_in_order\<close> raises nothing, whatever the gateway
  does, and neither does \<^verbatim>\<open>delete_in_reverse_order\<close>; the only exception that can leave
  \<^verbatim>\<open>deploy_in_order\<close> is the \<^verbatim>\<open>ValueError\<close> for a method it does not accept. Both
  hand back a sequence of the length they were given. An exception raised by a client call
  or a wait is the last record of the trace, written by the handler, which writes at most
  one record per run. No thread of the orchestrators ends by an exception (for an accepted
  method), so there is none that could reach the join.
\<close>

theorem failure_containment:
  "(m = Fn_create_stack \<or> m = Fn_update_stack \<longrightarrow> raised (deploy_in_order client t ps m) = None)
   \<and> (\<forall>e. raised (deploy_in_order client t ps m) = Some e \<longrightarrow>
          e = ValueError m \<and> m \<noteq> Fn_create_stack \<and> m \<noteq> Fn_update_stack)
   \<and> raised (delete_in_reverse_order client t ps) = None
   \<and> length (ops_after (deploy_in_order client t ps m)) = length ps
   \<and> length (ops_after (delete_in_reverse_order client t ps)) = length ps
   \<and> (\<exists>new. trace_after (deploy_in_order client t ps m) = t @ new
         \<and> (\<forall>req e. Called req (Inl e) \<in> set new \<longrightarrow> last new = LogError e)
         \<and> length (filter is_LogError new) \<le> 1)
   \<and> (\<exists>new. trace_after (delete_in_reverse_order client t ps) = t @ new
         \<and> (\<forall>req e. Called req (Inl e) \<in> set new \<longrightarrow> last new = LogError e)
         \<and> length (filter is_LogError new) \<le> 1)
   \<and> (m = Fn_create_stack \<or> m = Fn_update_stack \<longrightarrow>
         list_all (\<lambda>w. raised w = None) (deploy_workers clients seqs m))
   \<and> list_all (\<lambda>w. raised w = None) (delete_workers clients seqs)"
proof (intro conjI impI allI)
  show "raised (deploy_in_order client t ps m) = None" if "m = Fn_create_stack \<or> m = Fn_update_stack"
    using that by (rule raised_deploy)
  show "e = ValueError m" "m \<noteq> Fn_create_stack" "m \<noteq> Fn_update_stack"
    if "raised (deploy_in_order client t ps m) = Some e" for e
  proof -
    from that have "\<not> equals_create_stack m" "\<not> equals_update_stack m"
      using raised_deploy_equal [of m client t ps] by auto
    with that show "e = ValueError m" "m \<noteq> Fn_create_stack" "m \<noteq> Fn_update_stack"
      by (auto simp: deploy_in_order_def raised_def)
  qed
  show "raised (delete_in_reverse_order client t ps) = None" by (rule raised_delete)
  show "length (ops_after (deploy_in_order client t ps m)) = length ps"
    using list_all2_lengthD [OF deploy_in_order_frame [of ps client t m]] by simp
  show "length (ops_after (delete_in_reverse_order client t ps)) = length ps"
    using list_all2_lengthD [OF delete_in_reverse_order_frame [of ps client t]] by simp
  show "\<exists>new. trace_after (deploy_in_order client t ps m) = t @ new
         \<and> (\<forall>req e. Called req (Inl e) \<in> set new \<longrightarrow> last new = LogError e)
         \<and> length (filter is_LogError new) \<le> 1"
  proof (cases "m = Fn_create_stack \<or> m = Fn_update_stack")
    case True
    from forward_run [OF True result_parts, of client t ps] show ?thesis
      by (auto simp: in_calls)
  next
    case False
    then show ?thesis
    proof (cases m rule: method_cases)
      case accepted
      with False show ?thesis by simp
    next
      case (uncallable name c u)
      show ?thesis
      proof (cases "ps = []")
        case True
        with uncallable have "trace_after (deploy_in_order client t ps m) = t @ []"
          by (simp add: uncallable_run trace_after_def)
        then show ?thesis by (intro exI [of _ "[]"]) simp
      next
        case nonempty: False
        with uncallable have "trace_after (deploy_in_order client t ps m) = t @ [LogError (TypeError name)]"
          by (simp add: uncallable_run trace_after_def)
        then show ?thesis by (intro exI [of _ "[LogError (TypeError name)]"]) simp
      qed
    next
      case rejected
      then have "trace_after (deploy_in_order client t ps m) = t @ []"
        by (simp add: deploy_in_order_def trace_after_def)
      then show ?thesis by (intro exI [of _ "[]"]) simp
    qed
  qed
  from teardown_run [OF result_parts, of client t ps]
  show "\<exists>new. trace_after (delete_in_reverse_order client t ps) = t @ new
         \<and> (\<forall>req e. Called req (Inl e) \<in> set new \<longrightarrow> last new = LogError e)
         \<and> length (filter is_LogError new) \<le> 1"
    by (auto simp: in_calls)
  show "list_all (\<lambda>w. raised w = None) (deploy_workers clients seqs m)"
    if "m = Fn_create_stack \<or> m = Fn_update_stack"
    using that by (auto simp: list_all_iff deploy_workers_def raised_deploy)
  show "list_all (\<lambda>w. raised w = None) (delete_workers clients seqs)"
    by (auto simp: list_all_iff delete_workers_def raised_delete)
qed

theorem failure_containment_witness:
  "(Fn_create_stack = Fn_create_stack \<or> Fn_create_stack = Fn_update_stack)
   \<and> raised (deploy_in_order (rejecting ''s2'') [] three_stacks Fn_create_stack) = None
   \<and> Called (Create_stack (sample_op ''s2'')) (Inl (ClientError ''rejected''))
        \<in> set (trace_after (deploy_in_order (rejecting ''s2'') [] three_stacks Fn_create_stack))
   \<and> last (trace_after (deploy_in_order (rejecting ''s2'') [] three_stacks Fn_create_stack))
        = LogError (ClientError ''rejected'')
   \<and> length (ops_after (deploy_in_order (rejecting ''s2'') [] three_stacks Fn_create_stack)) = 3
   \<and> raised (delete_in_reverse_order (timing_out ''s2'') [] three_stacks) = None
   \<and> Called (Waiter_wait ''stack_delete_complete'' ''s2'' 5 120)
          (Inl (WaiterError ''Max attempts exceeded''))
        \<in> set (trace_after (delete_in_reverse_order (timing_out ''s2'') [] three_stacks))
   \<and> last (trace_after (delete_in_reverse_order (timing_out ''s2'') [] three_stacks))
        = LogError (WaiterError ''Max attempts exceeded'')"
proof -
  let ?run = "deploy_in_order (rejecting ''s2'') [] three_stacks Fn_create_stack"
  let ?del = "delete_in_reverse_order (timing_out ''s2'') [] three_stacks"
  note fd = failure_containment [of Fn_create_stack "timing_out ''s2''" "[]" three_stacks]
  from fd have rd: "raised ?del = None" by simp
  from fd obtain newd where nd: "trace_after ?del = [] @ newd"
    and loggedd: "\<forall>req e. Called req (Inl e) \<in> set newd \<longrightarrow> last newd = LogError e"
    by blast
  have inld: "Called (Waiter_wait ''stack_delete_complete'' ''s2'' 5 120)
          (Inl (WaiterError ''Max attempts exceeded'')) \<in> set (trace_after ?del)"
    by (simp add: teardown_three_timing_out trace_after_def)
  with nd loggedd have lastd: "last (trace_after ?del) = LogError (WaiterError ''Max attempts exceeded'')"
    by simp
  note fc = failure_containment [of Fn_create_stack "rejecting ''s2''" "[]" three_stacks]
  from fc have r: "raised ?run = None" by simp
  from fc have len: "length (ops_after ?run) = length three_stacks" by blast
  from fc obtain new where n: "trace_after ?run = [] @ new"
    and logged: "\<forall>req e. Called req (Inl e) \<in> set new \<longrightarrow> last new = LogError e"
    by blast
  have inl: "Called (Create_stack (sample_op ''s2'')) (Inl (ClientError ''rejected''))
        \<in> set (trace_after ?run)"
    by (simp add: create_three_rejecting trace_after_def)
  with n logged have "last (trace_after ?run) = LogError (ClientError ''rejected'')" by simp
  with r len inl rd inld lastd show ?thesis by (simp add: three_stacks_def)
qed

section \<open>The runners change StackId only\<close>

text \<open>
  C10. Each operation handed back by \<^verbatim>\<open>deploy_in_order\<close> is the one given, or the one
  given with \<^verbatim>\<open>StackId\<close> set; each one handed back by \<^verbatim>\<open>delete_in_reverse_order\<close> is the
  one given, or the one given with \<^verbatim>\<open>StackId\<close> removed (removing an absent key changes
  nothing). The same holds of what the threads of \<^verbatim>\<open>deploy_parallel\<close> and
  \<^verbatim>\<open>delete_parallel\<close> leave of every sequence. So \<^verbatim>\<open>StackName\<close>, \<^verbatim>\<open>TemplateBody\<close>,
  \<^verbatim>\<open>Parameters\<close> and \<^verbatim>\<open>Capabilities\<close> are never changed.
\<close>

theorem runners_change_StackId_only:
  "list_all2 (\<lambda>p q. q = p \<or> (\<exists>sid. q = p\<lparr>StackId := Some sid\<rparr>))
     ps (ops_after (deploy_in_order client t ps m))
   \<and> list_all2 (\<lambda>p q. q = p \<or> q = p\<lparr>StackId := None\<rparr>)
     ps (ops_after (delete_in_reverse_order client t ps))
   \<and> list_all2 (\<lambda>stacks w. list_all2 (\<lambda>p q. q = p \<or> (\<exists>sid. q = p\<lparr>StackId := Some sid\<rparr>))
                                stacks (ops_after w))
     seqs (deploy_workers clients seqs m)
   \<and> list_all2 (\<lambda>stacks w. list_all2 (\<lambda>p q. q = p \<or> q = p\<lparr>StackId := None\<rparr>)
                                stacks (ops_after w))
     seqs (delete_workers clients seqs)
   \<and> list_all2 (\<lambda>p q. StackName q = StackName p \<and> TemplateBody q = TemplateBody p
                     \<and> Parameters q = Parameters p \<and> Capabilities q = Capabilities p)
     ps (ops_after (deploy_in_order client t ps m))
   \<and> list_all2 (\<lambda>p q. StackName q = StackName p \<and> TemplateBody q = TemplateBody p
                     \<and> Parameters q = Parameters p \<and> Capabilities q = Capabilities p)
     ps (ops_after (delete_in_reverse_order client t ps))"
proof (intro conjI)
  show "list_all2 (\<lambda>p q. q = p \<or> (\<exists>sid. q = p\<lparr>StackId := Some sid\<rparr>))
     ps (ops_after (deploy_in_order client t ps m))"
    by (rule deploy_in_order_frame)
  show "list_all2 (\<lambda>p q. q = p \<or> q = p\<lparr>StackId := None\<rparr>)
     ps (ops_after (delete_in_reverse_order client t ps))"
    by (rule delete_in_reverse_order_frame)
  show "list_all2 (\<lambda>stacks w. list_all2 (\<lambda>p q. q = p \<or> (\<exists>sid. q = p\<lparr>StackId := Some sid\<rparr>))
                                stacks (ops_after w))
     seqs (deploy_workers clients seqs m)"
    by (rule list_all2_all_nthI) (simp_all add: length_workers deploy_workers_nth deploy_in_order_frame)
  show "list_all2 (\<lambda>stacks w. list_all2 (\<lambda>p q. q = p \<or> q = p\<lparr>StackId := None\<rparr>)
                                stacks (ops_after w))
     seqs (delete_workers clients seqs)"
    by (rule list_all2_all_nthI) (simp_all add: length_workers delete_workers_nth delete_in_reverse_order_frame)
  show "list_all2 (\<lambda>p q. StackName q = StackName p \<and> TemplateBody q = TemplateBody p
                     \<and> Parameters q = Parameters p \<and> Capabilities q = Capabilities p)
     ps (ops_after (deploy_in_order client t ps m))"
    by (rule list_all2_mono [OF deploy_in_order_frame]) auto
  show "list_all2 (\<lambda>p q. StackName q = StackName p \<and> TemplateBody q = TemplateBody p
                     \<and> Parameters q = Parameters p \<and> Capabilities q = Capabilities p)
     ps (ops_after (delete_in_reverse_order client t ps))"
    by (rule list_all2_mono [OF delete_in_reverse_order_frame]) auto
qed

theorem runners_change_StackId_only_witness:
  "ops_after (deploy_in_order accepting [] two_stacks Fn_create_stack)
     = [(sample_op ''git'')\<lparr>StackId := Some ''arn:git''\<rparr>,
        (sample_op ''build'')\<lparr>StackId := Some ''arn:build''\<rparr>]
   \<and> list_all2 (\<lambda>p q. StackName q = StackName p \<and> TemplateBody q = TemplateBody p
                     \<and> Parameters q = Parameters p \<and> Capabilities q = Capabilities p)
        two_stacks (ops_after (deploy_in_order accepting [] two_stacks Fn_create_stack))
   \<and> list_all2 (\<lambda>p q. q = p \<or> q = p\<lparr>StackId := None\<rparr>)
        three_stacks (ops_after (delete_in_reverse_order accepting [] three_stacks))"
  using runners_change_StackId_only [of two_stacks accepting "[]" Fn_create_stack]
        runners_change_StackId_only [of three_stacks accepting "[]"]
  by (simp add: create_two_stacks ops_after_def)

section \<open>The join of src/cf-deploy.py\<close>

text \<open>
  C1. In src/cf-deploy.py the condition of the join loop is the filter object itself, which
  is always true: \<^verbatim>\<open>deploy_parallel\<close> and \<^verbatim>\<open>delete_parallel\<close> never return, not even
  when every thread has ended before the first test (\<open>finish job = 0\<close>) or when there is no
  thread at all. On the same input \<^verbatim>\<open>deploy_parallel\<close> of src/scripts/cf-deploy.py, which
  tests \<^verbatim>\<open>list(filter(...))\<close>, returns at once with the sequences the threads left.
\<close>

theorem join_never_returns:
  "deploy_parallel (\<lambda>i. accepting) (\<lambda>job. 0) [two_stacks] Fn_create_stack = None
   \<and> delete_parallel (\<lambda>i. accepting) (\<lambda>job. 0) [two_stacks] = None
   \<and> deploy_parallel (\<lambda>i. accepting) (\<lambda>job. 0) [] Fn_create_stack = None
   \<and> scripts_deploy_parallel (\<lambda>i. accepting) (\<lambda>job. 0) [two_stacks] Fn_create_stack
       = Some ([[(sample_op ''git'')\<lparr>StackId := Some ''arn:git''\<rparr>,
                 (sample_op ''build'')\<lparr>StackId := Some ''arn:build''\<rparr>]], 0)"
proof -
  have "scripts_deploy_in_order accepting [] two_stacks Fn_create_stack
     = (None,
        [(sample_op ''git'')\<lparr>StackId := Some ''arn:git''\<rparr>,
         (sample_op ''build'')\<lparr>StackId := Some ''arn:build''\<rparr>],
        [Called (Create_stack (sample_op ''git'')) (Inr (Some ''arn:git'')),
         LogInfo ''git is being created'',
         Called (Waiter_wait ''stack_create_complete'' ''git'' 5 120) (Inr None),
         LogInfo ''git is created'',
         Called (Create_stack (sample_op ''build'')) (Inr (Some ''arn:build'')),
         LogInfo ''build is being created'',
         Called (Waiter_wait ''stack_create_complete'' ''build'' 5 120) (Inr None),
         LogInfo ''build is created''])"
    by (simp add: two_stacks_def scripts_deploy_in_order_def scripts_deploy_body_def create_stack_def
          wait_stack_def log_caught_def accepting_def sample_op_def Let_def)
  then show ?thesis
    by (simp add: deploy_parallel_def delete_parallel_def scripts_deploy_parallel_def
          join_loop_never scripts_join_loop_returns scripts_deploy_workers_def enumerate_eq_zip)
qed

section \<open>The completion message of src/cf-deploy.py\<close>

text \<open>
  C2. In src/cf-deploy.py the record written after a successful wait is the fixed text
  \<^verbatim>\<open>is created\<close>: a run with \<^verbatim>\<open>update_stack\<close> on the stack \<open>git\<close> logs
  \<open>git is being updated\<close> and then \<open>git is created\<close>. The same run of
  src/scripts/cf-deploy.py logs \<open>git is updated\<close>.
\<close>

theorem completion_message_names_create:
  "trace_after (deploy_in_order accepting [] [sample_op ''git''] Fn_update_stack)
     = [Called (Update_stack (sample_op ''git'')) (Inr (Some ''arn:git'')),
        LogInfo ''git is being updated'',
        Called (Waiter_wait ''stack_update_complete'' ''git'' 5 120) (Inr None),
        LogInfo ''git is created'']
   \<and> trace_after (scripts_deploy_in_order accepting [] [sample_op ''git''] Fn_update_stack)
     = [Called (Update_stack (sample_op ''git'')) (Inr (Some ''arn:git'')),
        LogInfo ''git is being updated'',
        Called (Waiter_wait ''stack_update_complete'' ''git'' 5 120) (Inr None),
        LogInfo ''git is updated'']"
  by (simp add: trace_after_def deploy_in_order_def deploy_body_def scripts_deploy_in_order_def
        scripts_deploy_body_def update_stack_def wait_stack_def log_caught_def accepting_def
        sample_op_def Let_def)

section \<open>Life cycle of the remote identifier\<close>

text \<open>
  C5. For a sequence whose stack names are distinct, let every operation's \<^verbatim>\<open>StackId\<close> be
  what the trace so far leaves for its name (\<open>tracked\<close>: the handle of the last create or
  update call that returned one, unless a delete of that stack was completed afterwards; absent
  otherwise). Then the same holds of the operations and the trace that \<^verbatim>\<open>deploy_in_order\<close>
  and \<^verbatim>\<open>delete_in_reverse_order\<close> hand back, whatever the gateway does, and it holds after
  every single pass of either loop body. It holds at the start for operations without
  \<^verbatim>\<open>StackId\<close> and an empty trace. In particular a pass of the forward body whose call returned the
  handle \<open>sid\<close> leaves \<^verbatim>\<open>StackId\<close> set to \<open>sid\<close> (the handle as the gateway gave it,
  so non-empty whenever the gateway's handle is), and a pass of the teardown body in which
  the delete call and its wait both returned leaves \<^verbatim>\<open>StackId\<close> absent.
\<close>

theorem remote_identifier_lifecycle:
  assumes dist: "distinct (map StackName ps)" and inv: "tracked t ps"
  shows "tracked (trace_after (deploy_in_order client t ps m)) (ops_after (deploy_in_order client t ps m))
       \<and> tracked (trace_after (delete_in_reverse_order client t ps))
                  (ops_after (delete_in_reverse_order client t ps))
       \<and> (forward_body client m t p = (r, p', t') \<and> client t (method_request m p) = Inr (Some sid)
            \<longrightarrow> StackId p' = Some sid)
       \<and> (delete_body client t p = (None, p', t') \<longrightarrow> StackId p' = None)
       \<and> (StackId p = remote_id (StackName p) t \<and> forward_body client m t p = (r, p', t')
            \<longrightarrow> StackId p' = remote_id (StackName p') t')
       \<and> (StackId p = remote_id (StackName p) t \<and> delete_body client t p = (r, p', t')
            \<longrightarrow> StackId p' = remote_id (StackName p') t')
       \<and> (list_all (\<lambda>q. StackId q = None) ps \<longrightarrow> tracked [] ps)"
proof (intro conjI impI)
  show "tracked (trace_after (deploy_in_order client t ps m)) (ops_after (deploy_in_order client t ps m))"
  proof (cases "m = Fn_create_stack \<or> m = Fn_update_stack")
    case True
    then show ?thesis
      using forward_loop_tracked [OF dist inv, of client m]
      by (simp only: deploy_in_order_accepted tracked_log_caught)
  next
    case False
    then show ?thesis
    proof (cases m rule: method_cases)
      case accepted
      with False show ?thesis by simp
    next
      case (uncallable name c u)
      with inv show ?thesis
        by (simp add: uncallable_run trace_after_def ops_after_def tracked_def remote_id_append
              track_simps)
    next
      case rejected
      with inv show ?thesis
        by (simp add: deploy_in_order_def trace_after_def ops_after_def)
    qed
  qed
  let ?loop = "for_each (delete_body client) t (rev ps)"
  have "tracked (trace_after ?loop) (ops_after ?loop)"
    using dist inv by (intro teardown_loop_tracked) (simp_all add: tracked_rev distinct_rev rev_map [symmetric])
  then have "tracked (trace_after (log_caught ?loop)) (rev (ops_after (log_caught ?loop)))"
    by (simp only: tracked_log_caught tracked_rev)
  moreover have "delete_in_reverse_order client t ps
        = (raised (log_caught ?loop), rev (ops_after (log_caught ?loop)), trace_after (log_caught ?loop))"
    by (simp add: delete_in_reverse_order_def raised_def ops_after_def trace_after_def split: prod.splits)
  ultimately show "tracked (trace_after (delete_in_reverse_order client t ps))
                  (ops_after (delete_in_reverse_order client t ps))"
    by (simp add: trace_after_def ops_after_def)
  show "StackId p' = Some sid"
    if "forward_body client m t p = (r, p', t') \<and> client t (method_request m p) = Inr (Some sid)"
    using that by (auto simp: forward_body_unfold split: sum.splits)
  show "StackId p' = None" if "delete_body client t p = (None, p', t')"
    using that by (auto simp: delete_body_unfold split: sum.splits)
  show "StackId p' = remote_id (StackName p') t'"
    if "StackId p = remote_id (StackName p) t \<and> forward_body client m t p = (r, p', t')"
    using that forward_body_tracked [of client m t p r p' t'] by simp
  show "StackId p' = remote_id (StackName p') t'"
    if "StackId p = remote_id (StackName p) t \<and> delete_body client t p = (r, p', t')"
    using that delete_body_tracked [of client t p r p' t'] by simp
  show "tracked [] ps" if "list_all (\<lambda>q. StackId q = None) ps"
    using that by (simp add: tracked_def remote_id_def list_all_iff)
qed

theorem remote_identifier_lifecycle_witness:
  "distinct (map StackName two_stacks) \<and> tracked [] two_stacks
   \<and> map StackId (ops_after (deploy_in_order accepting [] two_stacks Fn_create_stack))
       = [Some ''arn:git'', Some ''arn:build'']
   \<and> tracked (trace_after (deploy_in_order accepting [] two_stacks Fn_create_stack))
              (ops_after (deploy_in_order accepting [] two_stacks Fn_create_stack))
   \<and> map StackId (ops_after (delete_in_reverse_order accepting
          (trace_after (deploy_in_order accepting [] two_stacks Fn_create_stack))
          (ops_after (deploy_in_order accepting [] two_stacks Fn_create_stack))))
       = [None, None]
   \<and> tracked (trace_after (delete_in_reverse_order accepting
          (trace_after (deploy_in_order accepting [] two_stacks Fn_create_stack))
          (ops_after (deploy_in_order accepting [] two_stacks Fn_create_stack))))
        (ops_after (delete_in_reverse_order accepting
          (trace_after (deploy_in_order accepting [] two_stacks Fn_create_stack))
          (ops_after (deploy_in_order accepting [] two_stacks Fn_create_stack))))"
proof -
  let ?run1 = "deploy_in_order accepting [] two_stacks Fn_create_stack"
  let ?run2 = "delete_in_reverse_order accepting (trace_after ?run1) (ops_after ?run1)"
  have d0: "distinct (map StackName two_stacks)"
    by (simp add: two_stacks_def sample_op_def)
  have i0: "tracked [] two_stacks"
    by (simp add: two_stacks_def sample_op_def tracked_def remote_id_def)
  from remote_identifier_lifecycle [OF d0 i0, where client = accepting and m = Fn_create_stack]
  have i1: "tracked (trace_after ?run1) (ops_after ?run1)" by (rule conjunct1)
  have d1: "distinct (map StackName (ops_after ?run1))"
    by (simp add: create_two_stacks ops_after_def sample_op_def)
  from remote_identifier_lifecycle [OF d1 i1, where client = accepting]
  have i2: "tracked (trace_after ?run2) (ops_after ?run2)" by blast
  have s1: "map StackId (ops_after ?run1) = [Some ''arn:git'', Some ''arn:build'']"
    by (simp add: create_two_stacks ops_after_def)
  have s2: "map StackId (ops_after ?run2) = [None, None]"
    unfolding teardown_after_create by (simp add: ops_after_def two_stacks_def sample_op_def)
  from d0 i0 s1 i1 s2 i2 show ?thesis by blast
qed

section \<open>The same two places in src/scripts/cf-deploy.py\<close>

text \<open>
  The join of src/scripts/cf-deploy.py, which tests \<^verbatim>\<open>list(filter(...))\<close>, is exact: both
  orchestrators return with what the threads left of the sequences, after a number of sleeps
  by which every thread has ended, and no later than the first such moment.
\<close>

lemma scripts_join_exact:
  "\<exists>n. scripts_deploy_parallel clients finish seqs m
           = Some (map ops_after (scripts_deploy_workers clients seqs m), n)
      \<and> scripts_delete_parallel clients finish seqs
           = Some (map ops_after (delete_workers clients seqs), n)
      \<and> list_all (\<lambda>job. finish job \<le> n) [0..<length seqs]
      \<and> (\<forall>k. list_all (\<lambda>job. finish job \<le> k) [0..<length seqs] \<longrightarrow> n \<le> k)"
proof -
  let ?n = "Max (insert 0 (finish ` set [0..<length seqs]))"
  have "finish job \<le> ?n" if "job \<in> set [0..<length seqs]" for job
    using that by (intro Max_ge) auto
  then have all: "list_all (\<lambda>job. finish job \<le> ?n) [0..<length seqs]"
    unfolding list_all_iff by blast
  have least: "?n \<le> k" if "list_all (\<lambda>job. finish job \<le> k) [0..<length seqs]" for k
    using that by (intro Max.boundedI) (auto simp: list_all_iff)
  have ops: "(\<lambda>w. fst (snd w)) = ops_after" by (simp add: ops_after_def fun_eq_iff)
  have "scripts_deploy_parallel clients finish seqs m
           = Some (map ops_after (scripts_deploy_workers clients seqs m), ?n)"
    and "scripts_delete_parallel clients finish seqs
           = Some (map ops_after (delete_workers clients seqs), ?n)"
    by (simp_all add: scripts_deploy_parallel_def scripts_delete_parallel_def
          scripts_join_loop_returns ops)
  with all least show ?thesis by blast
qed

text \<open>
  The loop body of src/scripts/cf-deploy.py ends a successful pass with the record that names
  the action: \<open>is created\<close> for \<^verbatim>\<open>create_stack\<close>, \<open>is updated\<close> for \<^verbatim>\<open>update_stack\<close>.
\<close>

lemma scripts_completion_message:
  "(scripts_deploy_body client create_stack ''stack_create_complete'' ''created'' t p = (None, p', t')
      \<longrightarrow> last t' = LogInfo (StackName p @ '' is created''))
   \<and> (scripts_deploy_body client update_stack ''stack_update_complete'' ''updated'' t p = (None, p', t')
      \<longrightarrow> last t' = LogInfo (StackName p @ '' is updated''))"
  by (auto simp: scripts_deploy_body_def create_stack_def update_stack_def wait_stack_def Let_def
      split: sum.splits option.splits)

end
